theory Spec2Isabelle
  imports Complex_Main
begin

section \<open>Errors and results\<close>

text \<open>
  The content layer (\<^verbatim>\<open>src/lib/notion/client.ts\<close>) talks to a remote API and reshapes
  what it gets. Three things can go wrong in it: a remote call is rejected (after the
  retry wrapper has given up), a property of an absent object is read, which JavaScript
  answers with a \<^verbatim>\<open>TypeError\<close>, or the lock that guards the post cache rejects the
  caller: \<^verbatim>\<open>asyncLock\<close> is made with \<^verbatim>\<open>maxPending: 100\<close>, \<^verbatim>\<open>timeout: 60000\<close> and
  \<^verbatim>\<open>maxOccupationTime: 60000\<close>, and it rejects a call when the queue of the key is full,
  when the call has waited in the queue for the time-out, or when the call has not
  finished within the occupation time. All are values of \<open>error\<close>; a function that can
  raise returns \<open>error + 'a\<close> with the exception on the left.

  The recursive descent into child blocks and the pagination loops are bounded by
  nothing in the source, so their models take fuel; \<open>None\<close> is "the fuel ran out",
  that is, the call has not returned.
\<close>

datatype lock_error = TooManyPending | TimedOutInQueue | OccupationTimeExceeded

datatype error = APIResponseError nat | RequestFailed | TypeError | LockError lock_error

type_synonym 'a result = "(error + 'a) option"

definition ret :: "'a \<Rightarrow> 'a result" where
  "ret x = Some (Inr x)"

definition raise :: "error \<Rightarrow> 'a result" where
  "raise e = Some (Inl e)"

definition bindR :: "'a result \<Rightarrow> ('a \<Rightarrow> 'b result) \<Rightarrow> 'b result" where
  "bindR m f = (case m of None \<Rightarrow> None | Some (Inl e) \<Rightarrow> Some (Inl e) | Some (Inr x) \<Rightarrow> f x)"

fun mapR :: "('a \<Rightarrow> 'b result) \<Rightarrow> 'a list \<Rightarrow> 'b list result" where
  "mapR f [] = ret []"
| "mapR f (x # xs) = bindR (f x) (\<lambda>y. bindR (mapR f xs) (\<lambda>ys. ret (y # ys)))"

fun mapE :: "('a \<Rightarrow> error + 'b) \<Rightarrow> 'a list \<Rightarrow> error + 'b list" where
  "mapE f [] = Inr []"
| "mapE f (x # xs) =
     (case f x of Inl e \<Rightarrow> Inl e
      | Inr y \<Rightarrow> (case mapE f xs of Inl e \<Rightarrow> Inl e | Inr ys \<Rightarrow> Inr (y # ys)))"

section \<open>Raw records of the remote API\<close>

text \<open>
  The shapes below are read off the property accesses of \<^verbatim>\<open>client.ts\<close>
  (the declarations in \<^verbatim>\<open>responses.ts\<close> are not part of the sources at hand).
  A property that the code tests before use (\<^verbatim>\<open>x && ...\<close>, \<^verbatim>\<open>x?.y\<close>, \<^verbatim>\<open>'k' in x\<close>)
  is an \<open>option\<close>. A raw block carries its discriminant \<open>type\<close> and at most one
  type-specific property, \<open>payload\<close>; \<open>absent\<close> says that it has none.
  The properties \<^verbatim>\<open>code\<close>, \<^verbatim>\<open>text\<close> and \<^verbatim>\<open>file\<close> are written with a prime.
  A string that the code tests for truthiness (\<^verbatim>\<open>block_id\<close>, \<^verbatim>\<open>page_id\<close>) is absent
  when it is empty.
\<close>

datatype AnnotationObject = AnnotationObject
  (bold: bool) (italic: bool) (strikethrough: bool) (underline: bool) (code': bool) (color: string)

datatype LinkObject = LinkObject (url: string)

datatype TextObject = TextObject (content: string) (link: "LinkObject option")

datatype EquationObject = EquationObject (expression: string)

datatype ReferenceObject = ReferenceObject (id: string)

datatype MentionObject = MentionObject (type: string) (page: "ReferenceObject option")

datatype RichTextObject = RichTextObject
  (annotations: AnnotationObject) (plain_text: string) (href: "string option") (type: string)
  (text': "TextObject option") (equation: "EquationObject option") (mention: "MentionObject option")

datatype TextBlockObject = TextBlockObject (rich_text: "RichTextObject list") (color: string)

datatype HeadingObject = HeadingObject
  (rich_text: "RichTextObject list") (color: string) (is_toggleable: bool)

datatype ToDoObject = ToDoObject (rich_text: "RichTextObject list") (checked: bool) (color: string)

datatype ExternalObject = ExternalObject (url: string)

datatype HostedFileObject = HostedFileObject (url: string) (expiry_time: string)

datatype MediaObject = MediaObject
  (caption: "RichTextObject list option") (type: string)
  (external: "ExternalObject option") (file': "HostedFileObject option")

datatype CodeObject = CodeObject
  (caption: "RichTextObject list option") (rich_text: "RichTextObject list") (language: string)

datatype IconObject = IconObject
  (type: string) (emoji: "string option") (external: "ExternalObject option")

datatype CalloutObject = CalloutObject
  (rich_text: "RichTextObject list") (icon: "IconObject option") (color: string)

datatype SyncedFromObject = SyncedFromObject (block_id: string)

datatype SyncedBlockObject = SyncedBlockObject (synced_from: "SyncedFromObject option")

datatype UrlObject = UrlObject (url: string)

datatype TableObject = TableObject
  (table_width: nat) (has_column_header: bool) (has_row_header: bool)

datatype TableOfContentsObject = TableOfContentsObject (color: string)

datatype LinkToPageObject = LinkToPageObject (type: string) (page_id: string)

datatype TableRowObject = TableRowObject (cells: "RichTextObject list list")

datatype BlockPayloadObject =
    absent
  | paragraph_field TextBlockObject
  | heading_1_field HeadingObject
  | heading_2_field HeadingObject
  | heading_3_field HeadingObject
  | bulleted_list_item_field TextBlockObject
  | numbered_list_item_field TextBlockObject
  | to_do_field ToDoObject
  | video_field MediaObject
  | image_field MediaObject
  | file_field MediaObject
  | code_field CodeObject
  | quote_field TextBlockObject
  | equation_field EquationObject
  | callout_field CalloutObject
  | synced_block_field SyncedBlockObject
  | toggle_field TextBlockObject
  | embed_field UrlObject
  | bookmark_field UrlObject
  | link_preview_field UrlObject
  | table_field TableObject
  | table_of_contents_field TableOfContentsObject
  | link_to_page_field LinkToPageObject
  | table_row_field TableRowObject

datatype BlockObject = BlockObject
  (id: string) (type: string) (has_children: bool) (payload: BlockPayloadObject)

section \<open>The normalized content tree\<close>

text \<open>
  The types of \<^verbatim>\<open>interfaces.ts\<close>, as \<^verbatim>\<open>client.ts\<close> builds them. A container payload has
  a child slot; the slot of a paragraph, heading, list item, to-do, quote, callout and
  synced block is left out when the block is built (\<open>None\<close>) and filled during
  assembly, that of a toggle, table and column list starts as the empty list.
  \<open>'b\<close> stands for the block type, which closes the recursion below.
\<close>

datatype Annotation = Annotation
  (Bold: bool) (Italic: bool) (Strikethrough: bool) (Underline: bool) (Code: bool) (Color: string)

datatype Link = Link (Url: string)

datatype Text = Text (Content: string) (Link: "Link option")

datatype Equation = Equation (Expression: string)

datatype Reference = Reference (Id: string)

datatype Mention = Mention (Type: string) (Page: "Reference option")

datatype RichText = RichText
  (Annotation: Annotation) (PlainText: string) (Href: "string option")
  (Text: "Text option") (Equation: "Equation option") (Mention: "Mention option")

datatype 'b Paragraph = Paragraph
  (RichTexts: "RichText list") (Color: string) (Children: "'b list option")

datatype 'b Heading = Heading
  (RichTexts: "RichText list") (Color: string) (IsToggleable: bool) (Children: "'b list option")

datatype 'b BulletedListItem = BulletedListItem
  (RichTexts: "RichText list") (Color: string) (Children: "'b list option")

datatype 'b NumberedListItem = NumberedListItem
  (RichTexts: "RichText list") (Color: string) (Children: "'b list option")

datatype 'b ToDo = ToDo
  (RichTexts: "RichText list") (Checked: bool) (Color: string) (Children: "'b list option")

datatype External = External (Url: string)

datatype FileWithExpiry = FileWithExpiry (Type: string) (Url: string) (ExpiryTime: string)

datatype Video = Video
  (Caption: "RichText list") (Type: string) (External: "External option")

datatype Image = Image
  (Caption: "RichText list") (Type: string) (External: "External option")
  (File: "FileWithExpiry option")

datatype File = FileBlock
  (Caption: "RichText list") (Type: string) (External: "External option")
  (File: "FileWithExpiry option")

datatype Code = Code
  (Caption: "RichText list") (RichTexts: "RichText list") (Language: string)

datatype 'b Quote = Quote
  (RichTexts: "RichText list") (Color: string) (Children: "'b list option")

datatype Icon =
    EmojiIcon (Type: string) (Emoji: string)
  | FileOrExternalWithUrl (Type: string) (Url: string)

datatype 'b Callout = Callout
  (RichTexts: "RichText list") (Icon: "Icon option") (Color: string) (Children: "'b list option")

datatype SyncedFrom = SyncedFrom (BlockId: string)

datatype 'b SyncedBlock = SyncedBlock (SyncedFrom: "SyncedFrom option") (Children: "'b list option")

datatype 'b Toggle = Toggle (RichTexts: "RichText list") (Color: string) (Children: "'b list")

datatype Embed = Embed (Url: string)

datatype Bookmark = Bookmark (Url: string)

datatype LinkPreview = LinkPreview (Url: string)

datatype TableCell = TableCell (RichTexts: "RichText list")

datatype TableRow = TableRow
  (Id: string) (Type: string) (HasChildren: bool) (Cells: "TableCell list")

datatype Table = Table
  (TableWidth: nat) (HasColumnHeader: bool) (HasRowHeader: bool) (Rows: "TableRow list")

datatype 'b Column = Column
  (Id: string) (Type: string) (HasChildren: bool) (Children: "'b list")

datatype 'b ColumnList = ColumnList (Columns: "'b Column list")

datatype TableOfContents = TableOfContents (Color: string)

datatype LinkToPage = LinkToPage (Type: string) (PageId: string)

text \<open>
  A \<^verbatim>\<open>Block\<close> of the source is an object with the envelope \<^verbatim>\<open>Id\<close>, \<^verbatim>\<open>Type\<close>,
  \<^verbatim>\<open>HasChildren\<close> and one optional property per kind. \<^verbatim>\<open>_buildBlock\<close> sets at most one
  of them, so the model keeps them in one field: \<open>NoPayload\<close> is a block that carries
  the envelope only, \<open>WithTable t\<close> is a block whose property \<^verbatim>\<open>Table\<close> is \<open>t\<close>, and
  so on.
\<close>

datatype 'b BlockPayload =
    NoPayload
  | WithParagraph "'b Paragraph"
  | WithHeading1 "'b Heading"
  | WithHeading2 "'b Heading"
  | WithHeading3 "'b Heading"
  | WithBulletedListItem "'b BulletedListItem"
  | WithNumberedListItem "'b NumberedListItem"
  | WithToDo "'b ToDo"
  | WithVideo Video
  | WithImage Image
  | WithFile File
  | WithCode Code
  | WithQuote "'b Quote"
  | WithEquation Equation
  | WithCallout "'b Callout"
  | WithSyncedBlock "'b SyncedBlock"
  | WithToggle "'b Toggle"
  | WithEmbed Embed
  | WithBookmark Bookmark
  | WithLinkPreview LinkPreview
  | WithTable Table
  | WithColumnList "'b ColumnList"
  | WithTableOfContents TableOfContents
  | WithLinkToPage LinkToPage

datatype Block = Block
  (Id: string) (HasChildren: bool) (Type: string) (Payload: "Block BlockPayload")

section \<open>The block normalizer\<close>

text \<open>
  \<^verbatim>\<open>_buildRichText\<close> (the leading underscore of the source's private names is dropped).
  The annotation flags are copied; at most one of the three sub-payloads is set, the
  one that the span's \<open>type\<close> names, when the raw span has it.
\<close>

definition buildRichText :: "RichTextObject \<Rightarrow> RichText" where
  "buildRichText richTextObject =
     (let a = annotations richTextObject;
          annotation = Annotation.Annotation (bold a) (italic a) (strikethrough a) (underline a)
                         (code' a) (AnnotationObject.color a);
          richText = RichText annotation (plain_text richTextObject) (href richTextObject)
      in if RichTextObject.type richTextObject = ''text''
            \<and> text' richTextObject \<noteq> None then
           (case text' richTextObject of
              Some t \<Rightarrow>
                richText
                  (Some (Text.Text (content t)
                    (case link t of Some l \<Rightarrow> Some (Link.Link (LinkObject.url l)) | None \<Rightarrow> None)))
                  None None
            | None \<Rightarrow> richText None None None)
         else if RichTextObject.type richTextObject = ''equation''
            \<and> equation richTextObject \<noteq> None then
           (case equation richTextObject of
              Some e \<Rightarrow> richText None (Some (Equation.Equation (expression e))) None
            | None \<Rightarrow> richText None None None)
         else if RichTextObject.type richTextObject = ''mention''
            \<and> mention richTextObject \<noteq> None then
           (case mention richTextObject of
              Some m \<Rightarrow>
                richText None None
                  (Some (Mention.Mention (MentionObject.type m)
                    (if MentionObject.type m = ''page'' then
                       (case page m of Some r \<Rightarrow> Some (Reference.Reference (ReferenceObject.id r))
                        | None \<Rightarrow> None)
                     else None)))
            | None \<Rightarrow> richText None None None)
         else richText None None None)"

text \<open>\<^verbatim>\<open>x.caption?.map(_buildRichText) || []\<close>\<close>

definition buildCaption :: "RichTextObject list option \<Rightarrow> RichText list" where
  "buildCaption c = (case c of Some rts \<Rightarrow> map buildRichText rts | None \<Rightarrow> [])"

text \<open>
  The two media branches of \<^verbatim>\<open>_buildBlock\<close>: an image and a file block take the
  external URL or, for a hosted file, the URL with its expiry time; a video block
  takes the external URL only.
\<close>

definition buildExternal :: "MediaObject \<Rightarrow> External option" where
  "buildExternal m =
     (if MediaObject.type m = ''external'' then
        (case MediaObject.external m of Some e \<Rightarrow> Some (External.External (ExternalObject.url e))
         | None \<Rightarrow> None)
      else None)"

definition buildHostedFile :: "MediaObject \<Rightarrow> FileWithExpiry option" where
  "buildHostedFile m =
     (if MediaObject.type m = ''external'' \<and> MediaObject.external m \<noteq> None then None
      else if MediaObject.type m = ''file'' then
        (case MediaObject.file' m of
           Some f \<Rightarrow> Some (FileWithExpiry (MediaObject.type m) (HostedFileObject.url f) (expiry_time f))
         | None \<Rightarrow> None)
      else None)"

text \<open>The icon of a callout: an emoji or an external URL, nothing for any other kind.\<close>

definition buildCalloutIcon :: "IconObject option \<Rightarrow> Icon option" where
  "buildCalloutIcon i =
     (case i of
        None \<Rightarrow> None
      | Some ic \<Rightarrow>
          (if IconObject.type ic = ''emoji'' \<and> emoji ic \<noteq> None then
             (case emoji ic of Some e \<Rightarrow> Some (EmojiIcon (IconObject.type ic) e) | None \<Rightarrow> None)
           else if IconObject.type ic = ''external'' \<and> IconObject.external ic \<noteq> None then
             (case IconObject.external ic of
                Some e \<Rightarrow> Some (FileOrExternalWithUrl (IconObject.type ic) (ExternalObject.url e))
              | None \<Rightarrow> None)
           else None))"

text \<open>
  \<^verbatim>\<open>_buildBlock\<close>: a \<^verbatim>\<open>switch\<close> on the raw discriminant. Each \<^verbatim>\<open>case\<close> reads the
  property of its own kind without a test, so a raw block whose discriminant names a
  kind whose property is missing raises a \<^verbatim>\<open>TypeError\<close>. The \<^verbatim>\<open>default\<close> branch reads
  nothing but the envelope and the discriminant.
\<close>

definition buildBlock :: "BlockObject \<Rightarrow> error + Block" where
  "buildBlock blockObject =
     (let block = Block (BlockObject.id blockObject) (has_children blockObject);
          ty = BlockObject.type blockObject;
          pl = payload blockObject
      in
      if ty = ''paragraph'' then
        (case pl of
           paragraph_field p \<Rightarrow>
             Inr (block ''paragraph'' (WithParagraph (Paragraph
               (map buildRichText (TextBlockObject.rich_text p)) (TextBlockObject.color p) None)))
         | _ \<Rightarrow> Inl TypeError)
      else if ty = ''heading_1'' then
        (case pl of
           heading_1_field h \<Rightarrow>
             Inr (block ''heading_1'' (WithHeading1 (Heading
               (map buildRichText (HeadingObject.rich_text h)) (HeadingObject.color h)
               (is_toggleable h) None)))
         | _ \<Rightarrow> Inl TypeError)
      else if ty = ''heading_2'' then
        (case pl of
           heading_2_field h \<Rightarrow>
             Inr (block ''heading_2'' (WithHeading2 (Heading
               (map buildRichText (HeadingObject.rich_text h)) (HeadingObject.color h)
               (is_toggleable h) None)))
         | _ \<Rightarrow> Inl TypeError)
      else if ty = ''heading_3'' then
        (case pl of
           heading_3_field h \<Rightarrow>
             Inr (block ''heading_3'' (WithHeading3 (Heading
               (map buildRichText (HeadingObject.rich_text h)) (HeadingObject.color h)
               (is_toggleable h) None)))
         | _ \<Rightarrow> Inl TypeError)
      else if ty = ''bulleted_list_item'' then
        (case pl of
           bulleted_list_item_field p \<Rightarrow>
             Inr (block ''bulleted_list_item'' (WithBulletedListItem (BulletedListItem
               (map buildRichText (TextBlockObject.rich_text p)) (TextBlockObject.color p) None)))
         | _ \<Rightarrow> Inl TypeError)
      else if ty = ''numbered_list_item'' then
        (case pl of
           numbered_list_item_field p \<Rightarrow>
             Inr (block ''numbered_list_item'' (WithNumberedListItem (NumberedListItem
               (map buildRichText (TextBlockObject.rich_text p)) (TextBlockObject.color p) None)))
         | _ \<Rightarrow> Inl TypeError)
      else if ty = ''to_do'' then
        (case pl of
           to_do_field t \<Rightarrow>
             Inr (block ''to_do'' (WithToDo (ToDo
               (map buildRichText (ToDoObject.rich_text t)) (checked t) (ToDoObject.color t) None)))
         | _ \<Rightarrow> Inl TypeError)
      else if ty = ''video'' then
        (case pl of
           video_field m \<Rightarrow>
             Inr (block ''video'' (WithVideo (Video
               (buildCaption (MediaObject.caption m)) (MediaObject.type m) (buildExternal m))))
         | _ \<Rightarrow> Inl TypeError)
      else if ty = ''image'' then
        (case pl of
           image_field m \<Rightarrow>
             Inr (block ''image'' (WithImage (Image
               (buildCaption (MediaObject.caption m)) (MediaObject.type m) (buildExternal m)
               (buildHostedFile m))))
         | _ \<Rightarrow> Inl TypeError)
      else if ty = ''file'' then
        (case pl of
           file_field m \<Rightarrow>
             Inr (block ''file'' (WithFile (FileBlock
               (buildCaption (MediaObject.caption m)) (MediaObject.type m) (buildExternal m)
               (buildHostedFile m))))
         | _ \<Rightarrow> Inl TypeError)
      else if ty = ''code'' then
        (case pl of
           code_field c \<Rightarrow>
             Inr (block ''code'' (WithCode (Code.Code
               (buildCaption (CodeObject.caption c)) (map buildRichText (CodeObject.rich_text c))
               (language c))))
         | _ \<Rightarrow> Inl TypeError)
      else if ty = ''quote'' then
        (case pl of
           quote_field p \<Rightarrow>
             Inr (block ''quote'' (WithQuote (Quote
               (map buildRichText (TextBlockObject.rich_text p)) (TextBlockObject.color p) None)))
         | _ \<Rightarrow> Inl TypeError)
      else if ty = ''equation'' then
        (case pl of
           equation_field e \<Rightarrow>
             Inr (block ''equation'' (WithEquation (Equation.Equation (expression e))))
         | _ \<Rightarrow> Inl TypeError)
      else if ty = ''callout'' then
        (case pl of
           callout_field c \<Rightarrow>
             Inr (block ''callout'' (WithCallout (Callout
               (map buildRichText (CalloutObject.rich_text c)) (buildCalloutIcon (icon c))
               (CalloutObject.color c) None)))
         | _ \<Rightarrow> Inl TypeError)
      else if ty = ''synced_block'' then
        (case pl of
           synced_block_field sb \<Rightarrow>
             Inr (block ''synced_block'' (WithSyncedBlock (SyncedBlock
               (case synced_from sb of
                  Some sf \<Rightarrow> if block_id sf \<noteq> [] then Some (SyncedFrom.SyncedFrom (block_id sf))
                             else None
                | None \<Rightarrow> None)
               None)))
         | _ \<Rightarrow> Inl TypeError)
      else if ty = ''toggle'' then
        (case pl of
           toggle_field p \<Rightarrow>
             Inr (block ''toggle'' (WithToggle (Toggle
               (map buildRichText (TextBlockObject.rich_text p)) (TextBlockObject.color p) [])))
         | _ \<Rightarrow> Inl TypeError)
      else if ty = ''embed'' then
        (case pl of
           embed_field u \<Rightarrow> Inr (block ''embed'' (WithEmbed (Embed (UrlObject.url u))))
         | _ \<Rightarrow> Inl TypeError)
      else if ty = ''bookmark'' then
        (case pl of
           bookmark_field u \<Rightarrow> Inr (block ''bookmark'' (WithBookmark (Bookmark (UrlObject.url u))))
         | _ \<Rightarrow> Inl TypeError)
      else if ty = ''link_preview'' then
        (case pl of
           link_preview_field u \<Rightarrow>
             Inr (block ''link_preview'' (WithLinkPreview (LinkPreview (UrlObject.url u))))
         | _ \<Rightarrow> Inl TypeError)
      else if ty = ''table'' then
        (case pl of
           table_field t \<Rightarrow>
             Inr (block ''table'' (WithTable (Table
               (table_width t) (has_column_header t) (has_row_header t) [])))
         | _ \<Rightarrow> Inl TypeError)
      else if ty = ''column_list'' then
        Inr (block ''column_list'' (WithColumnList (ColumnList [])))
      else if ty = ''table_of_contents'' then
        (case pl of
           table_of_contents_field t \<Rightarrow>
             Inr (block ''table_of_contents''
               (WithTableOfContents (TableOfContents (TableOfContentsObject.color t))))
         | _ \<Rightarrow> Inl TypeError)
      else if ty = ''link_to_page'' then
        (case pl of
           link_to_page_field l \<Rightarrow>
             (if page_id l \<noteq> [] then
                Inr (block ''link_to_page''
                  (WithLinkToPage (LinkToPage (LinkToPageObject.type l) (page_id l))))
              else Inr (block ''unsupported'' NoPayload))
         | _ \<Rightarrow> Inl TypeError)
      else Inr (block ty NoPayload))"

section \<open>The tree assembler\<close>

text \<open>
  The remote content, as the assembler sees it. Each field is the outcome of one
  expression of the source: \<open>snapshot\<close> is the parsed file \<^verbatim>\<open>tmp/<id>.json\<close> when it
  exists; \<open>children_list\<close> and \<open>blocks_retrieve\<close> are the calls
  \<^verbatim>\<open>client.blocks.children.list\<close> and \<^verbatim>\<open>client.blocks.retrieve\<close> inside their
  \<^verbatim>\<open>retry\<close> wrapper, that is, the page or block finally returned or the error finally
  thrown. The content does not change while one tree is assembled.
  \<open>first_rejection\<close> belongs to the columns of a column list, which are fetched
  concurrently: it says which of the calls that raise does so first in time.
\<close>

datatype RetrieveBlockChildrenResponse = RetrieveBlockChildrenResponse
  (results: "BlockObject list") (has_more: bool) (next_cursor: "string option")

record remote =
  snapshot :: "string \<Rightarrow> BlockObject list option"
  children_list :: "string \<Rightarrow> string option \<Rightarrow> error + RetrieveBlockChildrenResponse"
  blocks_retrieve :: "string \<Rightarrow> error + BlockObject"
  first_rejection :: "string \<Rightarrow> nat"

text \<open>
  The pagination loop \<^verbatim>\<open>while (true) { ... if (!res.has_more) break; ... }\<close>, which
  appears three times in the source with the same body. It ends only when the remote
  says so.
\<close>

fun listChildren ::
  "nat \<Rightarrow> remote \<Rightarrow> string \<Rightarrow> string option \<Rightarrow> BlockObject list \<Rightarrow> BlockObject list result" where
  "listChildren 0 env blockId start_cursor collected = None"
| "listChildren (Suc n) env blockId start_cursor collected =
     (case children_list env blockId start_cursor of
        Inl e \<Rightarrow> raise e
      | Inr res \<Rightarrow>
          (if \<not> has_more res then ret (collected @ results res)
           else listChildren n env blockId (next_cursor res) (collected @ results res)))"

definition fetchChildren :: "nat \<Rightarrow> remote \<Rightarrow> string \<Rightarrow> BlockObject list result" where
  "fetchChildren n env blockId =
     (case snapshot env blockId of
        Some parsed \<Rightarrow> ret parsed
      | None \<Rightarrow> listChildren n env blockId None [])"

text \<open>\<^verbatim>\<open>_getTableRows\<close>\<close>

definition buildTableRow :: "BlockObject \<Rightarrow> TableRow" where
  "buildTableRow blockObject =
     TableRow (BlockObject.id blockObject) (BlockObject.type blockObject)
       (has_children blockObject)
       (if BlockObject.type blockObject = ''table_row'' then
          (case payload blockObject of
             table_row_field r \<Rightarrow> map (\<lambda>cell. TableCell (map buildRichText cell)) (cells r)
           | _ \<Rightarrow> [])
        else [])"

definition getTableRows :: "nat \<Rightarrow> remote \<Rightarrow> string \<Rightarrow> TableRow list result" where
  "getTableRows n env blockId =
     bindR (fetchChildren n env blockId) (\<lambda>blockObjects. ret (map buildTableRow blockObjects))"

text \<open>
  \<^verbatim>\<open>getAllBlocksByBlockId\<close>, \<^verbatim>\<open>_getColumns\<close> and \<^verbatim>\<open>_getSyncedBlockChildren\<close> call
  each other. The two helpers and the body of the loop over the blocks take the
  recursive call as the parameter \<open>getAll\<close>; the recursion is closed below, in
  \<open>getAllBlocksByBlockId\<close>.
\<close>

text \<open>
  \<^verbatim>\<open>Promise.all\<close> over calls that were all started: it raises as soon as one of them
  raises, with the error of the one that raises first in time (\<open>pick\<close> chooses it
  among the calls that raise, counted in the order of the array), whatever the others
  do; when none raises it returns once all have returned, with their values in the
  order of the array.
\<close>

definition rejections :: "'a result list \<Rightarrow> error list" where
  "rejections calls =
     List.map_filter (\<lambda>r. case r of Some (Inl e) \<Rightarrow> Some e | _ \<Rightarrow> None) calls"

definition fulfilments :: "'a result list \<Rightarrow> 'a list" where
  "fulfilments calls =
     List.map_filter (\<lambda>r. case r of Some (Inr x) \<Rightarrow> Some x | _ \<Rightarrow> None) calls"

definition promiseAll :: "nat \<Rightarrow> 'a result list \<Rightarrow> 'a list result" where
  "promiseAll pick calls =
     (if rejections calls \<noteq> [] then
        raise (rejections calls ! (pick mod length (rejections calls)))
      else if None \<in> set calls then None
      else ret (fulfilments calls))"

definition getColumnsWith ::
  "(string \<Rightarrow> Block list result) \<Rightarrow> nat \<Rightarrow> remote \<Rightarrow> string \<Rightarrow> Block Column list result" where
  "getColumnsWith getAll n env blockId =
     bindR (fetchChildren n env blockId) (\<lambda>blockObjects.
       promiseAll (first_rejection env blockId)
         (map (\<lambda>blockObject.
                 bindR (getAll (BlockObject.id blockObject)) (\<lambda>children.
                   ret (Column (BlockObject.id blockObject) (BlockObject.type blockObject)
                          (has_children blockObject) children)))
              blockObjects))"

definition getBlock :: "remote \<Rightarrow> string \<Rightarrow> error + Block" where
  "getBlock env blockId =
     (case blocks_retrieve env blockId of Inl e \<Rightarrow> Inl e | Inr res \<Rightarrow> buildBlock res)"

definition getSyncedBlockChildrenWith ::
  "(string \<Rightarrow> Block list result) \<Rightarrow> remote \<Rightarrow> Block \<Rightarrow> Block list result" where
  "getSyncedBlockChildrenWith getAll env block =
     (case Payload block of
        WithSyncedBlock sb \<Rightarrow>
          (case SyncedFrom sb of
             Some sf \<Rightarrow>
               (if BlockId sf \<noteq> [] then
                  (case getBlock env (BlockId sf) of
                     Inl err \<Rightarrow> ret []
                   | Inr originalBlock \<Rightarrow> getAll (Block.Id originalBlock))
                else getAll (Block.Id block))
           | None \<Rightarrow> getAll (Block.Id block))
      | _ \<Rightarrow> getAll (Block.Id block))"

text \<open>
  The body of the loop \<^verbatim>\<open>for (let i = 0; i < allBlocks.length; i++)\<close>: an
  \<^verbatim>\<open>else if\<close> chain in which every condition tests the type tag, the property of that
  kind and, for some kinds, the flag \<^verbatim>\<open>HasChildren\<close>. The conditions exclude each other
  by their type tags, so a branch whose property is missing leaves the block as it is.
  The assignment to the child slot is the block rebuilt with the slot filled.
\<close>

definition assembleBlock ::
  "(string \<Rightarrow> Block list result) \<Rightarrow> nat \<Rightarrow> remote \<Rightarrow> Block \<Rightarrow> Block result" where
  "assembleBlock getAll n env block =
     (let put = Block (Block.Id block) (Block.HasChildren block) (Block.Type block);
          ty = Block.Type block;
          pl = Payload block
      in
      if ty = ''table'' then
        (case pl of
           WithTable t \<Rightarrow>
             bindR (getTableRows n env (Block.Id block)) (\<lambda>rows.
               ret (put (WithTable (Table (TableWidth t) (HasColumnHeader t) (HasRowHeader t) rows))))
         | _ \<Rightarrow> ret block)
      else if ty = ''column_list'' then
        (case pl of
           WithColumnList c \<Rightarrow>
             bindR (getColumnsWith getAll n env (Block.Id block)) (\<lambda>columns.
               ret (put (WithColumnList (ColumnList columns))))
         | _ \<Rightarrow> ret block)
      else if ty = ''bulleted_list_item'' then
        (case pl of
           WithBulletedListItem p \<Rightarrow>
             (if Block.HasChildren block then
                bindR (getAll (Block.Id block)) (\<lambda>children.
                  ret (put (WithBulletedListItem (BulletedListItem
                    (BulletedListItem.RichTexts p) (BulletedListItem.Color p) (Some children)))))
              else ret block)
         | _ \<Rightarrow> ret block)
      else if ty = ''numbered_list_item'' then
        (case pl of
           WithNumberedListItem p \<Rightarrow>
             (if Block.HasChildren block then
                bindR (getAll (Block.Id block)) (\<lambda>children.
                  ret (put (WithNumberedListItem (NumberedListItem
                    (NumberedListItem.RichTexts p) (NumberedListItem.Color p) (Some children)))))
              else ret block)
         | _ \<Rightarrow> ret block)
      else if ty = ''to_do'' then
        (case pl of
           WithToDo p \<Rightarrow>
             (if Block.HasChildren block then
                bindR (getAll (Block.Id block)) (\<lambda>children.
                  ret (put (WithToDo (ToDo
                    (ToDo.RichTexts p) (Checked p) (ToDo.Color p) (Some children)))))
              else ret block)
         | _ \<Rightarrow> ret block)
      else if ty = ''synced_block'' then
        (case pl of
           WithSyncedBlock sb \<Rightarrow>
             bindR (getSyncedBlockChildrenWith getAll env block) (\<lambda>children.
               ret (put (WithSyncedBlock (SyncedBlock (SyncedFrom sb) (Some children)))))
         | _ \<Rightarrow> ret block)
      else if ty = ''toggle'' then
        (case pl of
           WithToggle p \<Rightarrow>
             bindR (getAll (Block.Id block)) (\<lambda>children.
               ret (put (WithToggle (Toggle (Toggle.RichTexts p) (Toggle.Color p) children))))
         | _ \<Rightarrow> ret block)
      else if ty = ''paragraph'' then
        (case pl of
           WithParagraph p \<Rightarrow>
             (if Block.HasChildren block then
                bindR (getAll (Block.Id block)) (\<lambda>children.
                  ret (put (WithParagraph (Paragraph
                    (Paragraph.RichTexts p) (Paragraph.Color p) (Some children)))))
              else ret block)
         | _ \<Rightarrow> ret block)
      else if ty = ''heading_1'' then
        (case pl of
           WithHeading1 h \<Rightarrow>
             (if Block.HasChildren block then
                bindR (getAll (Block.Id block)) (\<lambda>children.
                  ret (put (WithHeading1 (Heading
                    (Heading.RichTexts h) (Heading.Color h) (IsToggleable h) (Some children)))))
              else ret block)
         | _ \<Rightarrow> ret block)
      else if ty = ''heading_2'' then
        (case pl of
           WithHeading2 h \<Rightarrow>
             (if Block.HasChildren block then
                bindR (getAll (Block.Id block)) (\<lambda>children.
                  ret (put (WithHeading2 (Heading
                    (Heading.RichTexts h) (Heading.Color h) (IsToggleable h) (Some children)))))
              else ret block)
         | _ \<Rightarrow> ret block)
      else if ty = ''heading_3'' then
        (case pl of
           WithHeading3 h \<Rightarrow>
             (if Block.HasChildren block then
                bindR (getAll (Block.Id block)) (\<lambda>children.
                  ret (put (WithHeading3 (Heading
                    (Heading.RichTexts h) (Heading.Color h) (IsToggleable h) (Some children)))))
              else ret block)
         | _ \<Rightarrow> ret block)
      else if ty = ''quote'' then
        (case pl of
           WithQuote p \<Rightarrow>
             (if Block.HasChildren block then
                bindR (getAll (Block.Id block)) (\<lambda>children.
                  ret (put (WithQuote (Quote
                    (Quote.RichTexts p) (Quote.Color p) (Some children)))))
              else ret block)
         | _ \<Rightarrow> ret block)
      else if ty = ''callout'' then
        (case pl of
           WithCallout p \<Rightarrow>
             (if Block.HasChildren block then
                bindR (getAll (Block.Id block)) (\<lambda>children.
                  ret (put (WithCallout (Callout
                    (Callout.RichTexts p) (Icon p) (Callout.Color p) (Some children)))))
              else ret block)
         | _ \<Rightarrow> ret block)
      else ret block)"

text \<open>
  \<^verbatim>\<open>getAllBlocksByBlockId\<close>. One unit of fuel is one level of nesting (and one page of
  a listing); a call that is given none has not returned.
\<close>

primrec getAllBlocksByBlockId :: "nat \<Rightarrow> remote \<Rightarrow> string \<Rightarrow> Block list result" where
  "getAllBlocksByBlockId 0 env blockId = None"
| "getAllBlocksByBlockId (Suc n) env blockId =
     bindR (fetchChildren n env blockId) (\<lambda>blockObjects.
       (case mapE buildBlock blockObjects of
          Inl e \<Rightarrow> raise e
        | Inr allBlocks \<Rightarrow> mapR (assembleBlock (getAllBlocksByBlockId n env) n env) allBlocks))"

definition getColumns :: "nat \<Rightarrow> remote \<Rightarrow> string \<Rightarrow> Block Column list result" where
  "getColumns n env blockId = getColumnsWith (getAllBlocksByBlockId n env) n env blockId"

definition getSyncedBlockChildren :: "nat \<Rightarrow> remote \<Rightarrow> Block \<Rightarrow> Block list result" where
  "getSyncedBlockChildren n env block =
     getSyncedBlockChildrenWith (getAllBlocksByBlockId n env) env block"

section \<open>Pages and posts\<close>

text \<open>
  A raw page of the database, as \<^verbatim>\<open>_validPageObject\<close> and \<^verbatim>\<open>_buildPost\<close> read it.
  The rank is a JavaScript number; the model takes it to be an integer.
\<close>

datatype SelectProperty = SelectProperty (id: string) (name: string) (color: string)

datatype TitleProperty = TitleProperty (title: "RichTextObject list option")

datatype RichTextProperty = RichTextProperty (rich_text: "RichTextObject list option")

datatype DateObject = DateObject (start: string)

datatype DateProperty = DateProperty (date: "DateObject option")

datatype MultiSelectProperty = MultiSelectProperty (multi_select: "SelectProperty list option")

datatype PageFileObject = PageFileObject
  (type: string) (external: "ExternalObject option") (file': "HostedFileObject option")

datatype FilesProperty = FilesProperty (files: "PageFileObject list option")

datatype NumberProperty = NumberProperty (number: "int option")

datatype CheckboxProperty = CheckboxProperty (checkbox: bool)

datatype PageProperties = PageProperties
  (Page: TitleProperty) (Slug: RichTextProperty) (Date: DateProperty) (Tags: MultiSelectProperty)
  (Excerpt: RichTextProperty) (FeaturedImage: FilesProperty) (Rank: NumberProperty)
  (Meta: "CheckboxProperty option")

datatype CoverObject = CoverObject (type: string) (external: "ExternalObject option")

datatype PageObject = PageObject
  (id: string) (icon: "IconObject option") (cover: "CoverObject option")
  (properties: PageProperties)

datatype FileOrExternalWithUrl = FileOrExternalWithUrl (Type: string) (Url: string)

datatype FileOrExternalWithUrlAndExpiryTime = FileOrExternalWithUrlAndExpiryTime
  (Type: string) (Url: string) (ExpiryTime: "string option")

datatype Post = Post
  (PageId: string) (Title: string) (Icon: "Icon option") (Cover: "FileOrExternalWithUrl option")
  (Slug: string) (Date: string) (Tags: "SelectProperty list") (Excerpt: string)
  (FeaturedImage: "FileOrExternalWithUrlAndExpiryTime option") (Rank: int) (Meta: bool)

text \<open>
  \<^verbatim>\<open>_validPageObject\<close>. The last disjunct, \<^verbatim>\<open>!!prop.Meta\<close>, tests the property
  object \<^verbatim>\<open>Meta\<close> itself, not its checkbox: it holds whenever the page has the property.
\<close>

definition validPageObject :: "PageObject \<Rightarrow> bool" where
  "validPageObject pageObject =
     (let prop = properties pageObject
      in (case title (PageProperties.Page prop) of None \<Rightarrow> False | Some t \<Rightarrow> length t > 0)
         \<and> (case RichTextProperty.rich_text (PageProperties.Slug prop) of
               None \<Rightarrow> False | Some r \<Rightarrow> length r > 0)
         \<and> (date (PageProperties.Date prop) \<noteq> None \<or> PageProperties.Meta prop \<noteq> None))"

text \<open>\<^verbatim>\<open>richTexts.map((richText) => richText.plain_text).join('')\<close>\<close>

definition plainText :: "RichTextObject list \<Rightarrow> string" where
  "plainText richTexts = concat (map plain_text richTexts)"

text \<open>
  \<^verbatim>\<open>_buildPost\<close>, in three parts for the icon, the cover and the featured image, and
  the post itself. It reads \<^verbatim>\<open>cover.external.url\<close>, \<^verbatim>\<open>files[0].external.url\<close> and
  \<^verbatim>\<open>prop.Meta.checkbox\<close> without a test.
\<close>

definition buildPostIcon :: "IconObject option \<Rightarrow> Icon option" where
  "buildPostIcon i =
     (case i of
        None \<Rightarrow> None
      | Some ic \<Rightarrow>
          (if IconObject.type ic = ''emoji'' \<and> emoji ic \<noteq> None then
             (case emoji ic of Some e \<Rightarrow> Some (EmojiIcon (IconObject.type ic) e) | None \<Rightarrow> None)
           else if IconObject.type ic = ''external'' \<and> IconObject.external ic \<noteq> None then
             (case IconObject.external ic of
                Some e \<Rightarrow> Some (Icon.FileOrExternalWithUrl (IconObject.type ic) (ExternalObject.url e))
              | None \<Rightarrow> None)
           else None))"

definition buildPostCover :: "CoverObject option \<Rightarrow> error + FileOrExternalWithUrl option" where
  "buildPostCover c =
     (case c of
        None \<Rightarrow> Inr None
      | Some cv \<Rightarrow>
          (if CoverObject.type cv = ''external'' then
             (case CoverObject.external cv of
                None \<Rightarrow> Inl TypeError
              | Some e \<Rightarrow>
                  Inr (Some (FileOrExternalWithUrl.FileOrExternalWithUrl
                    (CoverObject.type cv) (ExternalObject.url e))))
           else Inr (Some (FileOrExternalWithUrl.FileOrExternalWithUrl (CoverObject.type cv) []))))"

definition buildFeaturedImage ::
  "PageFileObject list option \<Rightarrow> error + FileOrExternalWithUrlAndExpiryTime option" where
  "buildFeaturedImage fs =
     (case fs of
        None \<Rightarrow> Inr None
      | Some [] \<Rightarrow> Inr None
      | Some (f # _) \<Rightarrow>
          (if PageFileObject.type f = ''external'' then
             (case PageFileObject.external f of
                None \<Rightarrow> Inl TypeError
              | Some e \<Rightarrow>
                  Inr (Some (FileOrExternalWithUrlAndExpiryTime ''external''
                    (ExternalObject.url e) None)))
           else
             (case PageFileObject.file' f of
                Some h \<Rightarrow>
                  Inr (Some (FileOrExternalWithUrlAndExpiryTime ''file''
                    (HostedFileObject.url h) (Some (expiry_time h))))
              | None \<Rightarrow> Inr None)))"

definition buildPost :: "PageObject \<Rightarrow> error + Post" where
  "buildPost pageObject =
     (let prop = properties pageObject
      in case buildPostCover (cover pageObject) of
           Inl e \<Rightarrow> Inl e
         | Inr cover' \<Rightarrow>
        (case buildFeaturedImage (files (PageProperties.FeaturedImage prop)) of
           Inl e \<Rightarrow> Inl e
         | Inr featuredImage \<Rightarrow>
        (case PageProperties.Meta prop of
           None \<Rightarrow> Inl TypeError
         | Some meta \<Rightarrow>
             Inr (Post
               (PageObject.id pageObject)
               (case title (PageProperties.Page prop) of Some t \<Rightarrow> plainText t | None \<Rightarrow> [])
               (buildPostIcon (PageObject.icon pageObject))
               cover'
               (case RichTextProperty.rich_text (PageProperties.Slug prop) of
                  Some r \<Rightarrow> plainText r | None \<Rightarrow> [])
               (case date (PageProperties.Date prop) of Some d \<Rightarrow> start d | None \<Rightarrow> [])
               (case multi_select (PageProperties.Tags prop) of Some ts \<Rightarrow> ts | None \<Rightarrow> [])
               (case RichTextProperty.rich_text (PageProperties.Excerpt prop) of
                  Some r \<Rightarrow> if length r > 0 then plainText r else [] | None \<Rightarrow> [])
               featuredImage
               (case number (PageProperties.Rank prop) of
                  Some r \<Rightarrow> if r \<noteq> 0 then r else 0 | None \<Rightarrow> 0)
               (checkbox meta = True)))))"

section \<open>The post cache\<close>

text \<open>
  \<^verbatim>\<open>LANGUAGE_KEYS\<close> of \<^verbatim>\<open>content-constants.ts\<close>.
\<close>

datatype LanguageKey = ja | en

definition LANGUAGE_KEYS :: "LanguageKey list" where
  "LANGUAGE_KEYS = [ja, en]"

text \<open>
  What the post accessors take from outside: \<open>databases_query\<close> is the call
  \<^verbatim>\<open>client.databases.query\<close> inside its \<^verbatim>\<open>retry\<close> wrapper. Its first argument is the
  number of queries issued before it, so the remote may answer the same query
  differently each time. \<^verbatim>\<open>SLUG_META_TITLE\<close> and \<^verbatim>\<open>NUMBER_OF_POSTS_PER_PAGE\<close> are
  constants whose declarations are not among the sources at hand, and
  \<open>localeCompare\<close> is the string comparison of the JavaScript engine.

  \<open>asyncLock\<close> is what the lock of the key \<^verbatim>\<open>posts\<close> does with a call of
  \<^verbatim>\<open>acquire\<close>; its argument is the number of calls of \<^verbatim>\<open>acquire\<close> before this one.
  The lock either runs the body and hands its outcome to the caller (\<open>Admitted\<close>),
  or rejects the caller and never runs the body (\<open>Rejected\<close>: the queue is full, or
  the call times out or exceeds the occupation time while it waits), or runs the body
  and rejects the caller while the body is still at work (\<open>Overrun\<close>: the occupation
  time is exceeded; the body goes on and its outcome is dropped). Which of these
  happens depends on how many callers wait and on how long the holders take, which
  the model takes from outside.
\<close>

datatype admission = Admitted | Rejected lock_error | Overrun

datatype QueryDatabaseResponse = QueryDatabaseResponse
  (results: "PageObject list") (has_more: bool) (next_cursor: "string option")

record database =
  databases_query :: "nat \<Rightarrow> LanguageKey \<Rightarrow> string option \<Rightarrow> error + QueryDatabaseResponse"
  SLUG_META_TITLE :: string
  NUMBER_OF_POSTS_PER_PAGE :: nat
  localeCompare :: "string \<Rightarrow> string \<Rightarrow> int"
  asyncLock :: "nat \<Rightarrow> admission"

text \<open>
  The state of the process: the module variable \<^verbatim>\<open>postsCacheByLang\<close> and four
  counters that the source does not have, kept for the statements below: the
  queries issued so far, the calls of \<^verbatim>\<open>asyncLock.acquire\<close> so far, and, for each
  language, the calls of \<^verbatim>\<open>fetchPostsAndMeta\<close> that were started and those that
  returned.

  The lock runs one body at a time, so the bodies of the calls run one after the
  other; the calls of the model are in the order in which the lock serves them.
\<close>

record state =
  postsCacheByLang :: "LanguageKey \<Rightarrow> (Post list \<times> Post option) option"
  queries :: nat
  acquires :: nat
  started :: "LanguageKey \<Rightarrow> nat"
  returned :: "LanguageKey \<Rightarrow> nat"

definition initial :: state where
  "initial = \<lparr>postsCacheByLang = (\<lambda>lang. None), queries = 0, acquires = 0,
               started = (\<lambda>lang. 0), returned = (\<lambda>lang. 0)\<rparr>"

type_synonym 'a action = "state \<Rightarrow> ((error + 'a) \<times> state) option"

text \<open>
  \<^verbatim>\<open>asyncLock.acquire(ASYNC_LOCK_POSTS, body)\<close>. The state after the call is the state
  after its body; a call whose body runs and has not returned has none.
\<close>

definition acquire :: "database \<Rightarrow> 'a action \<Rightarrow> 'a action" where
  "acquire env body s =
     (let s0 = s\<lparr>acquires := Suc (acquires s)\<rparr>
      in case asyncLock env (acquires s) of
           Admitted \<Rightarrow> body s0
         | Rejected e \<Rightarrow> Some (Inl (LockError e), s0)
         | Overrun \<Rightarrow>
             (case body s0 of
                None \<Rightarrow> None
              | Some (r, s1) \<Rightarrow> Some (Inl (LockError OccupationTimeExceeded), s1)))"

text \<open>The pagination loop of \<^verbatim>\<open>fetchPostsAndMeta\<close>.\<close>

fun queryDatabase ::
  "nat \<Rightarrow> database \<Rightarrow> LanguageKey \<Rightarrow> string option \<Rightarrow> PageObject list \<Rightarrow> nat
     \<Rightarrow> ((error + PageObject list) \<times> nat) option" where
  "queryDatabase 0 env lang start_cursor collected q = None"
| "queryDatabase (Suc n) env lang start_cursor collected q =
     (case databases_query env q lang start_cursor of
        Inl e \<Rightarrow> Some (Inl e, Suc q)
      | Inr res \<Rightarrow>
          (if \<not> QueryDatabaseResponse.has_more res
           then Some (Inr (collected @ QueryDatabaseResponse.results res), Suc q)
           else queryDatabase n env lang (QueryDatabaseResponse.next_cursor res)
                  (collected @ QueryDatabaseResponse.results res) (Suc q)))"

text \<open>
  The end of \<^verbatim>\<open>fetchPostsAndMeta\<close>: the valid pages become posts, the posts proper are
  those without the meta flag, and the title record is the first meta post with the
  reserved slug.
\<close>

definition selectPosts :: "database \<Rightarrow> PageObject list \<Rightarrow> error + (Post list \<times> Post option)" where
  "selectPosts env pageObjects =
     (case mapE buildPost (filter validPageObject pageObjects) of
        Inl e \<Rightarrow> Inl e
      | Inr allPosts \<Rightarrow>
          Inr (filter (\<lambda>p. \<not> Post.Meta p) allPosts,
               find (\<lambda>p. Post.Meta p \<and> Post.Slug p = SLUG_META_TITLE env) allPosts))"

definition fetchPostsAndMeta ::
  "nat \<Rightarrow> database \<Rightarrow> LanguageKey \<Rightarrow> (Post list \<times> Post option) action" where
  "fetchPostsAndMeta n env lang s =
     (case queryDatabase n env lang None [] (queries s) of
        None \<Rightarrow> None
      | Some (r, q) \<Rightarrow>
          (let s1 = s\<lparr>queries := q, started := (started s)(lang := Suc (started s lang))\<rparr>
           in case r of
                Inl e \<Rightarrow> Some (Inl e, s1)
              | Inr pageObjects \<Rightarrow>
                  (case selectPosts env pageObjects of
                     Inl e \<Rightarrow> Some (Inl e, s1)
                   | Inr postsAndMeta \<Rightarrow>
                       Some (Inr postsAndMeta,
                             s1\<lparr>returned := (returned s1)(lang := Suc (returned s1 lang))\<rparr>))))"

definition getAllPostsCore :: "nat \<Rightarrow> database \<Rightarrow> LanguageKey \<Rightarrow> Post list action" where
  "getAllPostsCore n env lang s =
     (case postsCacheByLang s lang of
        Some cache \<Rightarrow> Some (Inr (fst cache), s)
      | None \<Rightarrow>
          (case fetchPostsAndMeta n env lang s of
             None \<Rightarrow> None
           | Some (Inl e, s1) \<Rightarrow> Some (Inl e, s1)
           | Some (Inr postsAndMeta, s1) \<Rightarrow>
               Some (Inr (fst postsAndMeta),
                     s1\<lparr>postsCacheByLang := (postsCacheByLang s1)(lang := Some postsAndMeta)\<rparr>)))"

definition getAllPosts :: "nat \<Rightarrow> database \<Rightarrow> LanguageKey \<Rightarrow> Post list action" where
  "getAllPosts n env lang = acquire env (getAllPostsCore n env lang)"

definition getTitleMetaCore :: "nat \<Rightarrow> database \<Rightarrow> LanguageKey \<Rightarrow> Post option action" where
  "getTitleMetaCore n env lang s =
     (case postsCacheByLang s lang of
        Some cache \<Rightarrow> Some (Inr (snd cache), s)
      | None \<Rightarrow>
          (case fetchPostsAndMeta n env lang s of
             None \<Rightarrow> None
           | Some (Inl e, s1) \<Rightarrow> Some (Inl e, s1)
           | Some (Inr postsAndMeta, s1) \<Rightarrow>
               Some (Inr (snd postsAndMeta),
                     s1\<lparr>postsCacheByLang := (postsCacheByLang s1)(lang := Some postsAndMeta)\<rparr>)))"

definition getTitleMeta :: "nat \<Rightarrow> database \<Rightarrow> LanguageKey \<Rightarrow> Post option action" where
  "getTitleMeta n env lang = acquire env (getTitleMetaCore n env lang)"

fun getAllPostsOfLanguages ::
  "nat \<Rightarrow> database \<Rightarrow> LanguageKey list \<Rightarrow> Post list \<Rightarrow> Post list action" where
  "getAllPostsOfLanguages n env [] posts s = Some (Inr posts, s)"
| "getAllPostsOfLanguages n env (lang # langs) posts s =
     (case getAllPostsCore n env lang s of
        None \<Rightarrow> None
      | Some (Inl e, s1) \<Rightarrow> Some (Inl e, s1)
      | Some (Inr ps, s1) \<Rightarrow> getAllPostsOfLanguages n env langs (posts @ ps) s1)"

definition getAllPostsOfAllLanguagesCore :: "nat \<Rightarrow> database \<Rightarrow> Post list action" where
  "getAllPostsOfAllLanguagesCore n env = getAllPostsOfLanguages n env LANGUAGE_KEYS []"

definition getAllPostsOfAllLanguages :: "nat \<Rightarrow> database \<Rightarrow> Post list action" where
  "getAllPostsOfAllLanguages n env = acquire env (getAllPostsOfAllLanguagesCore n env)"

text \<open>
  The derived accessors await \<^verbatim>\<open>getAllPosts\<close> and compute on its list; \<open>withAllPosts\<close>
  is that pattern.
\<close>

definition withAllPosts ::
  "nat \<Rightarrow> database \<Rightarrow> LanguageKey \<Rightarrow> (Post list \<Rightarrow> 'a) \<Rightarrow> 'a action" where
  "withAllPosts n env lang f s =
     (case getAllPosts n env lang s of
        None \<Rightarrow> None
      | Some (Inl e, s1) \<Rightarrow> Some (Inl e, s1)
      | Some (Inr allPosts, s1) \<Rightarrow> Some (Inr (f allPosts), s1))"

text \<open>
  \<^verbatim>\<open>Array.prototype.sort\<close> with a comparison function: the sort of the language is
  stable, and for a consistent comparison function every stable sort gives the same
  array. The model inserts from the right, each element before the first one that it
  does not follow.
\<close>

fun insertSorted :: "('a \<Rightarrow> 'a \<Rightarrow> int) \<Rightarrow> 'a \<Rightarrow> 'a list \<Rightarrow> 'a list" where
  "insertSorted cmp x [] = [x]"
| "insertSorted cmp x (y # ys) =
     (if cmp x y \<le> 0 then x # y # ys else y # insertSorted cmp x ys)"

definition arraySort :: "('a \<Rightarrow> 'a \<Rightarrow> int) \<Rightarrow> 'a list \<Rightarrow> 'a list" where
  "arraySort cmp xs = foldr (insertSorted cmp) xs []"

text \<open>\<^verbatim>\<open>getRankedPosts\<close>; the page size is a natural number, for which \<^verbatim>\<open>slice(0, pageSize)\<close> is \<open>take\<close>.\<close>

definition rankCompare :: "Post \<Rightarrow> Post \<Rightarrow> int" where
  "rankCompare a b =
     (if Post.Rank a > Post.Rank b then -1 else if Post.Rank a = Post.Rank b then 0 else 1)"

definition getRankedPosts :: "nat \<Rightarrow> database \<Rightarrow> LanguageKey \<Rightarrow> nat \<Rightarrow> Post list action" where
  "getRankedPosts n env lang pageSize =
     withAllPosts n env lang (\<lambda>allPosts.
       take pageSize (arraySort rankCompare (filter (\<lambda>post. Post.Rank post \<noteq> 0) allPosts)))"

text \<open>
  \<^verbatim>\<open>getNumberOfPages\<close>. Its result is a JavaScript number: with a page size of zero the
  division gives \<^verbatim>\<open>Infinity\<close>, or \<^verbatim>\<open>NaN\<close> when there is no post either, and
  \<^verbatim>\<open>NaN > 0\<close> is false.
\<close>

datatype number = Finite nat | Infinity | NaN

definition numberOfPages :: "nat \<Rightarrow> nat \<Rightarrow> number" where
  "numberOfPages len perPage =
     (if perPage = 0 then (if len = 0 then NaN else Infinity)
      else Finite (len div perPage + (if len mod perPage > 0 then 1 else 0)))"

definition getNumberOfPages :: "nat \<Rightarrow> database \<Rightarrow> LanguageKey \<Rightarrow> number action" where
  "getNumberOfPages n env lang =
     withAllPosts n env lang (\<lambda>allPosts.
       numberOfPages (length allPosts) (NUMBER_OF_POSTS_PER_PAGE env))"

text \<open>
  \<^verbatim>\<open>getAllTags\<close>: the \<^verbatim>\<open>reduce\<close> keeps a tag when its name is not yet in \<^verbatim>\<open>tagNames\<close>.
\<close>

definition keepNewTag ::
  "SelectProperty list \<times> string list \<Rightarrow> SelectProperty \<Rightarrow> SelectProperty list \<times> string list" where
  "keepNewTag st tag =
     (case st of (acc, tagNames) \<Rightarrow>
        if name tag \<notin> set tagNames then (acc @ [tag], tagNames @ [name tag])
        else (acc, tagNames))"

definition allTags :: "database \<Rightarrow> Post list \<Rightarrow> SelectProperty list" where
  "allTags env allPosts =
     arraySort (\<lambda>a b. localeCompare env (name a) (name b))
       (fst (foldl keepNewTag ([], []) (concat (map Post.Tags allPosts))))"

definition getAllTags :: "nat \<Rightarrow> database \<Rightarrow> LanguageKey \<Rightarrow> SelectProperty list action" where
  "getAllTags n env lang = withAllPosts n env lang (allTags env)"

section \<open>The list-grouping pass\<close>

text \<open>
  \<^verbatim>\<open>NotionBlocks.astro\<close> folds its blocks into an array of blocks and list nodes
  (\<^verbatim>\<open>interfaces.Block | interfaces.List\<close>). A list node has one of three type tags and
  its items. The fold tells the two apart by the tag alone, and the fold reads nothing
  of its input but the tag, so the model lets it run on an array that holds list nodes
  already.
\<close>

datatype ListType = bulleted_list | numbered_list | to_do_list

datatype ListNode = ListNode (Type: ListType) (ListItems: "Block list")

datatype element = BlockElement Block | ListElement ListNode

fun listTypeName :: "ListType \<Rightarrow> string" where
  "listTypeName bulleted_list = ''bulleted_list''"
| "listTypeName numbered_list = ''numbered_list''"
| "listTypeName to_do_list = ''to_do_list''"

fun typeTag :: "element \<Rightarrow> string" where
  "typeTag (BlockElement b) = Block.Type b"
| "typeTag (ListElement l) = listTypeName (ListNode.Type l)"

text \<open>
  \<^verbatim>\<open>prevList.ListItems.push(block)\<close>: the list node at the end of the array grows in
  place. An element without \<^verbatim>\<open>ListItems\<close>, a block, has nothing to push to.
\<close>

fun pushItem :: "element \<Rightarrow> Block \<Rightarrow> error + element" where
  "pushItem (ListElement l) b = Inr (ListElement (ListNode (ListNode.Type l) (ListItems l @ [b])))"
| "pushItem (BlockElement p) b = Inl TypeError"

text \<open>The body shared by the three \<^verbatim>\<open>if\<close> statements of the fold, for the list type \<open>lt\<close>.\<close>

definition groupInto ::
  "ListType \<Rightarrow> element option \<Rightarrow> element list \<Rightarrow> Block \<Rightarrow> error + element list" where
  "groupInto lt prevList arr b =
     (case prevList of
        None \<Rightarrow> Inr (arr @ [ListElement (ListNode lt [b])])
      | Some p \<Rightarrow>
          (if typeTag p \<noteq> listTypeName lt then Inr (arr @ [ListElement (ListNode lt [b])])
           else (case pushItem p b of Inl e \<Rightarrow> Inl e | Inr p' \<Rightarrow> Inr (butlast arr @ [p']))))"

definition reduceStep :: "element list \<Rightarrow> element \<Rightarrow> nat \<Rightarrow> error + element list" where
  "reduceStep arr block i =
     (let prevList = (if i = 0 then None else if arr = [] then None else Some (last arr))
      in case block of
           BlockElement b \<Rightarrow>
             (if Block.Type b = ''bulleted_list_item'' then groupInto bulleted_list prevList arr b
              else if Block.Type b = ''numbered_list_item'' then groupInto numbered_list prevList arr b
              else if Block.Type b = ''to_do'' then groupInto to_do_list prevList arr b
              else Inr (arr @ [block]))
         | ListElement l \<Rightarrow> Inr (arr @ [block]))"

fun reduceFrom :: "nat \<Rightarrow> element list \<Rightarrow> element list \<Rightarrow> error + element list" where
  "reduceFrom i arr [] = Inr arr"
| "reduceFrom i arr (block # rest) =
     (case reduceStep arr block i of
        Inl e \<Rightarrow> Inl e
      | Inr arr' \<Rightarrow> reduceFrom (Suc i) arr' rest)"

text \<open>The constant \<^verbatim>\<open>blocks\<close> of the component: \<^verbatim>\<open>rawBlocks.reduce(..., [])\<close>.\<close>

definition groupBlocks :: "element list \<Rightarrow> error + element list" where
  "groupBlocks rawBlocks = reduceFrom 0 [] rawBlocks"

section \<open>Notions of the specification\<close>

text \<open>
  The definitions of this section are not taken from the source: they say, in the
  words of the specification, what the code is compared with.
\<close>

text \<open>The case labels of the \<^verbatim>\<open>switch\<close> in \<^verbatim>\<open>_buildBlock\<close>: the handled kinds.\<close>

definition handledKinds :: "string list" where
  "handledKinds =
     [''paragraph'', ''heading_1'', ''heading_2'', ''heading_3'', ''bulleted_list_item'',
      ''numbered_list_item'', ''to_do'', ''video'', ''image'', ''file'', ''code'', ''quote'',
      ''equation'', ''callout'', ''synced_block'', ''toggle'', ''embed'', ''bookmark'',
      ''link_preview'', ''table'', ''column_list'', ''table_of_contents'', ''link_to_page'']"

text \<open>
  The child slot of a block, read and written whatever the kind: \<open>childSlot\<close> is
  \<open>None\<close> for a block without a slot and for a slot that was never assigned.
\<close>

fun childSlot :: "Block \<Rightarrow> Block list option" where
  "childSlot (Block i h t (WithParagraph p)) = Paragraph.Children p"
| "childSlot (Block i h t (WithHeading1 p)) = Heading.Children p"
| "childSlot (Block i h t (WithHeading2 p)) = Heading.Children p"
| "childSlot (Block i h t (WithHeading3 p)) = Heading.Children p"
| "childSlot (Block i h t (WithBulletedListItem p)) = BulletedListItem.Children p"
| "childSlot (Block i h t (WithNumberedListItem p)) = NumberedListItem.Children p"
| "childSlot (Block i h t (WithToDo p)) = ToDo.Children p"
| "childSlot (Block i h t (WithQuote p)) = Quote.Children p"
| "childSlot (Block i h t (WithCallout p)) = Callout.Children p"
| "childSlot (Block i h t (WithSyncedBlock p)) = SyncedBlock.Children p"
| "childSlot (Block i h t (WithToggle p)) = Some (Toggle.Children p)"
| "childSlot (Block i h t pl) = None"

fun withChildren :: "Block list \<Rightarrow> Block \<Rightarrow> Block" where
  "withChildren cs (Block i h t (WithParagraph (Paragraph r c old))) =
     Block i h t (WithParagraph (Paragraph r c (Some cs)))"
| "withChildren cs (Block i h t (WithHeading1 (Heading r c g old))) =
     Block i h t (WithHeading1 (Heading r c g (Some cs)))"
| "withChildren cs (Block i h t (WithHeading2 (Heading r c g old))) =
     Block i h t (WithHeading2 (Heading r c g (Some cs)))"
| "withChildren cs (Block i h t (WithHeading3 (Heading r c g old))) =
     Block i h t (WithHeading3 (Heading r c g (Some cs)))"
| "withChildren cs (Block i h t (WithBulletedListItem (BulletedListItem r c old))) =
     Block i h t (WithBulletedListItem (BulletedListItem r c (Some cs)))"
| "withChildren cs (Block i h t (WithNumberedListItem (NumberedListItem r c old))) =
     Block i h t (WithNumberedListItem (NumberedListItem r c (Some cs)))"
| "withChildren cs (Block i h t (WithToDo (ToDo r k c old))) =
     Block i h t (WithToDo (ToDo r k c (Some cs)))"
| "withChildren cs (Block i h t (WithQuote (Quote r c old))) =
     Block i h t (WithQuote (Quote r c (Some cs)))"
| "withChildren cs (Block i h t (WithCallout (Callout r ic c old))) =
     Block i h t (WithCallout (Callout r ic c (Some cs)))"
| "withChildren cs (Block i h t (WithSyncedBlock (SyncedBlock f old))) =
     Block i h t (WithSyncedBlock (SyncedBlock f (Some cs)))"
| "withChildren cs (Block i h t (WithToggle (Toggle r c old))) =
     Block i h t (WithToggle (Toggle r c cs))"
| "withChildren cs (Block i h t pl) = Block i h t pl"

fun withRows :: "TableRow list \<Rightarrow> Block \<Rightarrow> Block" where
  "withRows rs (Block i h t (WithTable (Table w ch rh old))) =
     Block i h t (WithTable (Table w ch rh rs))"
| "withRows rs (Block i h t pl) = Block i h t pl"

fun withColumns :: "Block Column list \<Rightarrow> Block \<Rightarrow> Block" where
  "withColumns cs (Block i h t (WithColumnList (ColumnList old))) =
     Block i h t (WithColumnList (ColumnList cs))"
| "withColumns cs (Block i h t pl) = Block i h t pl"

text \<open>
  The kinds whose children the specification makes depend on the flag
  \<^verbatim>\<open>HasChildren\<close>, the toggle apart.
\<close>

definition flaggedKinds :: "string list" where
  "flaggedKinds =
     [''paragraph'', ''heading_1'', ''heading_2'', ''heading_3'', ''bulleted_list_item'',
      ''numbered_list_item'', ''to_do'', ''quote'', ''callout'']"

text \<open>
  Grouping, as the specification words it: the derived kind of a list item, and the
  sequence cut into maximal runs of adjacent items of one kind, each run a list node,
  every other block an element of its own.
\<close>

definition itemKind :: "Block \<Rightarrow> ListType option" where
  "itemKind b =
     (if Block.Type b = ''bulleted_list_item'' then Some bulleted_list
      else if Block.Type b = ''numbered_list_item'' then Some numbered_list
      else if Block.Type b = ''to_do'' then Some to_do_list
      else None)"

function groupRuns :: "Block list \<Rightarrow> element list" where
  "groupRuns [] = []"
| "groupRuns (b # bs) =
     (case itemKind b of
        None \<Rightarrow> BlockElement b # groupRuns bs
      | Some k \<Rightarrow>
          ListElement (ListNode k (b # takeWhile (\<lambda>c. itemKind c = Some k) bs))
            # groupRuns (dropWhile (\<lambda>c. itemKind c = Some k) bs))"
  by pat_completeness auto
termination
  by (relation "measure length") (auto simp: length_dropWhile_le less_Suc_eq_le)

text \<open>
  A block is told from a list node by its type tag only, so the blocks of a
  well-formed sequence do not carry the tag of a list node.
\<close>

definition listTags :: "string list" where
  "listTags = [''bulleted_list'', ''numbered_list'', ''to_do_list'']"

definition blocksOnly :: "Block list \<Rightarrow> bool" where
  "blocksOnly bs = list_all (\<lambda>b. Block.Type b \<notin> set listTags) bs"

text \<open>An element that the fold would group: a block of one of the three item kinds.\<close>

fun isItem :: "element \<Rightarrow> bool" where
  "isItem (BlockElement b) = (itemKind b \<noteq> None)"
| "isItem (ListElement l) = False"

text \<open>
  A comparison function is consistent when any two values are comparable and
  "not after" is transitive.
\<close>

definition consistent :: "('a \<Rightarrow> 'a \<Rightarrow> int) \<Rightarrow> bool" where
  "consistent cmp =
     ((\<forall>a b. cmp a b \<le> 0 \<or> cmp b a \<le> 0) \<and> (\<forall>a b c. cmp a b \<le> 0 \<and> cmp b c \<le> 0 \<longrightarrow> cmp a c \<le> 0))"

text \<open>
  Filtering, as the specification words it: a raw page with an empty title (a title
  without spans, which is what the remote gives for a page that has none), the meta
  flag of a raw page, and the raw pages that are retained as posts.
\<close>

definition emptyTitle :: "PageObject \<Rightarrow> bool" where
  "emptyTitle pageObject =
     (case title (PageProperties.Page (properties pageObject)) of None \<Rightarrow> True | Some t \<Rightarrow> t = [])"

definition emptySlug :: "PageObject \<Rightarrow> bool" where
  "emptySlug pageObject =
     (case RichTextProperty.rich_text (PageProperties.Slug (properties pageObject)) of
        None \<Rightarrow> True | Some r \<Rightarrow> r = [])"

definition metaFlag :: "PageObject \<Rightarrow> bool" where
  "metaFlag pageObject =
     (case PageProperties.Meta (properties pageObject) of None \<Rightarrow> False | Some c \<Rightarrow> checkbox c)"

definition retained :: "PageObject list \<Rightarrow> PageObject list" where
  "retained pageObjects = filter (\<lambda>p. validPageObject p \<and> \<not> metaFlag p) pageObjects"

text \<open>
  The remainder of the process, for the cache: any sequence of calls of the three
  accessors that read or fill \<^verbatim>\<open>postsCacheByLang\<close>, each with its own fuel (every other
  accessor of posts goes through \<^verbatim>\<open>getAllPosts\<close>). \<open>afterCalls\<close> is the state in which
  the sequence leaves the process, whatever the calls returned or raised and whether
  the lock admitted or rejected them; \<open>None\<close> says that one of them has not returned.
\<close>

datatype call = GetAllPosts LanguageKey | GetTitleMeta LanguageKey | GetAllPostsOfAllLanguages

fun afterCall :: "database \<Rightarrow> nat \<times> call \<Rightarrow> state \<Rightarrow> state option" where
  "afterCall env (n, GetAllPosts lang) s = map_option snd (getAllPosts n env lang s)"
| "afterCall env (n, GetTitleMeta lang) s = map_option snd (getTitleMeta n env lang s)"
| "afterCall env (n, GetAllPostsOfAllLanguages) s =
     map_option snd (getAllPostsOfAllLanguages n env s)"

fun afterCalls :: "database \<Rightarrow> (nat \<times> call) list \<Rightarrow> state \<Rightarrow> state option" where
  "afterCalls env [] s = Some s"
| "afterCalls env (c # cs) s =
     (case afterCall env c s of None \<Rightarrow> None | Some s1 \<Rightarrow> afterCalls env cs s1)"

text \<open>
  What the cache and the counters of one language look like from the first fill on:
  \<open>settled lang s s'\<close> says that a language cached in \<open>s\<close> has the same entry and
  the same counters in \<open>s'\<close>; \<open>counted s\<close> says that exactly the cached languages
  have a fetch that returned, and one only.
\<close>

definition settled :: "state \<Rightarrow> state \<Rightarrow> bool" where
  "settled s s' =
     (\<forall>lang. postsCacheByLang s lang \<noteq> None \<longrightarrow>
        postsCacheByLang s' lang = postsCacheByLang s lang
        \<and> started s' lang = started s lang \<and> returned s' lang = returned s lang)"

definition counted :: "state \<Rightarrow> bool" where
  "counted s = (\<forall>lang. returned s lang = (if postsCacheByLang s lang = None then 0 else 1))"

text \<open>
  Child assembly, as the specification words it (with the toggle among the kinds that
  are expanded whatever the flag says): what becomes of one normalized block, given
  the function \<open>getAll\<close> that assembles the children of a block identifier.
\<close>

definition assembleSpec ::
  "(string \<Rightarrow> Block list result) \<Rightarrow> nat \<Rightarrow> remote \<Rightarrow> Block \<Rightarrow> Block result" where
  "assembleSpec getAll n env block =
     (if Block.Type block \<in> set flaggedKinds then
        (if Block.HasChildren block then
           bindR (getAll (Block.Id block)) (\<lambda>children. ret (withChildren children block))
         else ret block)
      else if Block.Type block = ''toggle'' then
        bindR (getAll (Block.Id block)) (\<lambda>children. ret (withChildren children block))
      else if Block.Type block = ''synced_block'' then
        bindR (getSyncedBlockChildrenWith getAll env block) (\<lambda>children.
          ret (withChildren children block))
      else if Block.Type block = ''table'' then
        bindR (getTableRows n env (Block.Id block)) (\<lambda>rows. ret (withRows rows block))
      else if Block.Type block = ''column_list'' then
        bindR (getColumnsWith getAll n env (Block.Id block)) (\<lambda>columns.
          ret (withColumns columns block))
      else ret block)"

text \<open>
  What the normalizer promises the assembler: the payload of a block is the one that
  its type tag names, its child slot is still empty, and a block of any other tag
  carries the envelope only.
\<close>

fun wellTagged :: "Block \<Rightarrow> bool" where
  "wellTagged (Block i h t NoPayload) = (t \<notin> set handledKinds)"
| "wellTagged (Block i h t (WithParagraph p)) = (t = ''paragraph'' \<and> Paragraph.Children p = None)"
| "wellTagged (Block i h t (WithHeading1 p)) = (t = ''heading_1'' \<and> Heading.Children p = None)"
| "wellTagged (Block i h t (WithHeading2 p)) = (t = ''heading_2'' \<and> Heading.Children p = None)"
| "wellTagged (Block i h t (WithHeading3 p)) = (t = ''heading_3'' \<and> Heading.Children p = None)"
| "wellTagged (Block i h t (WithBulletedListItem p)) =
     (t = ''bulleted_list_item'' \<and> BulletedListItem.Children p = None)"
| "wellTagged (Block i h t (WithNumberedListItem p)) =
     (t = ''numbered_list_item'' \<and> NumberedListItem.Children p = None)"
| "wellTagged (Block i h t (WithToDo p)) = (t = ''to_do'' \<and> ToDo.Children p = None)"
| "wellTagged (Block i h t (WithVideo p)) = (t = ''video'')"
| "wellTagged (Block i h t (WithImage p)) = (t = ''image'')"
| "wellTagged (Block i h t (WithFile p)) = (t = ''file'')"
| "wellTagged (Block i h t (WithCode p)) = (t = ''code'')"
| "wellTagged (Block i h t (WithQuote p)) = (t = ''quote'' \<and> Quote.Children p = None)"
| "wellTagged (Block i h t (WithEquation p)) = (t = ''equation'')"
| "wellTagged (Block i h t (WithCallout p)) = (t = ''callout'' \<and> Callout.Children p = None)"
| "wellTagged (Block i h t (WithSyncedBlock p)) =
     (t = ''synced_block'' \<and> SyncedBlock.Children p = None)"
| "wellTagged (Block i h t (WithToggle p)) = (t = ''toggle'' \<and> Toggle.Children p = [])"
| "wellTagged (Block i h t (WithEmbed p)) = (t = ''embed'')"
| "wellTagged (Block i h t (WithBookmark p)) = (t = ''bookmark'')"
| "wellTagged (Block i h t (WithLinkPreview p)) = (t = ''link_preview'')"
| "wellTagged (Block i h t (WithTable p)) = (t = ''table'' \<and> Rows p = [])"
| "wellTagged (Block i h t (WithColumnList p)) = (t = ''column_list'' \<and> Columns p = [])"
| "wellTagged (Block i h t (WithTableOfContents p)) = (t = ''table_of_contents'')"
| "wellTagged (Block i h t (WithLinkToPage p)) = (t = ''link_to_page'')"

text \<open>The blocks that an element stands for, in order.\<close>

fun elementBlocks :: "element \<Rightarrow> Block list" where
  "elementBlocks (BlockElement b) = [b]"
| "elementBlocks (ListElement l) = ListItems l"

text \<open>Two neighbours that one list node could have held: list nodes of the same type.\<close>

definition sameList :: "element \<Rightarrow> element \<Rightarrow> bool" where
  "sameList x y =
     (case (x, y) of
        (ListElement l1, ListElement l2) \<Rightarrow> ListNode.Type l1 = ListNode.Type l2
      | _ \<Rightarrow> False)"

section \<open>Sample content\<close>

text \<open>
  A small database and a small document, on which the statements below are run.
\<close>

definition span :: "string \<Rightarrow> RichTextObject" where
  "span s =
     RichTextObject (AnnotationObject False False False False False ''default'') s None ''text''
       (Some (TextObject s None)) None None"

definition samplePage ::
  "string \<Rightarrow> string \<Rightarrow> string \<Rightarrow> string option \<Rightarrow> SelectProperty list \<Rightarrow> int option \<Rightarrow> bool
     \<Rightarrow> PageObject" where
  "samplePage pageId ttl slug day tags rank meta =
     PageObject pageId None None
       (PageProperties
          (TitleProperty (Some (if ttl = [] then [] else [span ttl])))
          (RichTextProperty (Some [span slug]))
          (DateProperty (map_option DateObject day))
          (MultiSelectProperty (Some tags))
          (RichTextProperty (Some []))
          (FilesProperty (Some []))
          (NumberProperty rank)
          (Some (CheckboxProperty meta)))"

definition samplePost :: "string \<Rightarrow> string \<Rightarrow> string \<Rightarrow> string \<Rightarrow> SelectProperty list \<Rightarrow> int \<Rightarrow> Post" where
  "samplePost pageId ttl slug day tags rank =
     Post pageId ttl None None slug day tags [] None rank False"

definition tagNews :: SelectProperty where
  "tagNews = SelectProperty ''t1'' ''news'' ''blue''"

definition tagArt :: SelectProperty where
  "tagArt = SelectProperty ''t2'' ''art'' ''red''"

definition tagNewsAgain :: SelectProperty where
  "tagNewsAgain = SelectProperty ''t3'' ''news'' ''green''"

definition samplePages :: "PageObject list" where
  "samplePages =
     [samplePage ''p1'' ''One'' ''one'' (Some ''2024-05-04'') [tagNews, tagArt] (Some 3) False,
      samplePage ''p2'' ''Two'' ''two'' (Some ''2024-05-03'') [tagNewsAgain] (Some 5) False,
      samplePage ''p3'' [] ''three'' (Some ''2024-05-03'') [tagArt] (Some 9) False,
      samplePage ''p4'' ''Four'' ''four'' (Some ''2024-05-02'') [] (Some 5) False,
      samplePage ''p5'' ''Site title'' ''meta-title'' None [] None True,
      samplePage ''p6'' ''Six'' ''six'' (Some ''2024-05-01'') [tagArt] None False]"

definition samplePosts :: "Post list" where
  "samplePosts =
     [samplePost ''p1'' ''One'' ''one'' ''2024-05-04'' [tagNews, tagArt] 3,
      samplePost ''p2'' ''Two'' ''two'' ''2024-05-03'' [tagNewsAgain] 5,
      samplePost ''p4'' ''Four'' ''four'' ''2024-05-02'' [] 5,
      samplePost ''p6'' ''Six'' ''six'' ''2024-05-01'' [tagArt] 0]"

text \<open>Strings compared by length, a consistent comparison that has ties.\<close>

definition byLength :: "string \<Rightarrow> string \<Rightarrow> int" where
  "byLength a b = int (length a) - int (length b)"

definition sampleDatabase :: database where
  "sampleDatabase =
     \<lparr>databases_query = (\<lambda>q lang cursor.
          if lang = ja then Inr (QueryDatabaseResponse samplePages False None)
          else Inr (QueryDatabaseResponse [] False None)),
      SLUG_META_TITLE = ''meta-title'',
      NUMBER_OF_POSTS_PER_PAGE = 3,
      localeCompare = byLength,
      asyncLock = (\<lambda>k. Admitted)\<rparr>"

text \<open>
  A database with a negative rank, one whose first query fails, and an empty one
  whose lock rejects the second caller, with the states that the first call leaves.
\<close>

definition signedPosts :: "Post list" where
  "signedPosts =
     [samplePost ''p1'' ''One'' ''one'' ''2024-05-04'' [] 3,
      samplePost ''p2'' ''Two'' ''two'' ''2024-05-03'' [] (- 1)]"

definition signedDatabase :: database where
  "signedDatabase =
     \<lparr>databases_query = (\<lambda>q lang cursor.
          Inr (QueryDatabaseResponse
            [samplePage ''p1'' ''One'' ''one'' (Some ''2024-05-04'') [] (Some 3) False,
             samplePage ''p2'' ''Two'' ''two'' (Some ''2024-05-03'') [] (Some (- 1)) False]
            False None)),
      SLUG_META_TITLE = ''meta-title'',
      NUMBER_OF_POSTS_PER_PAGE = 3,
      localeCompare = byLength,
      asyncLock = (\<lambda>k. Admitted)\<rparr>"

definition flakyDatabase :: database where
  "flakyDatabase =
     \<lparr>databases_query = (\<lambda>q lang cursor.
          if q = 0 then Inl (APIResponseError 502)
          else Inr (QueryDatabaseResponse [] False None)),
      SLUG_META_TITLE = ''meta-title'',
      NUMBER_OF_POSTS_PER_PAGE = 3,
      localeCompare = byLength,
      asyncLock = (\<lambda>k. Admitted)\<rparr>"

definition afterFailure :: state where
  "afterFailure =
     \<lparr>postsCacheByLang = (\<lambda>lang. None), queries = Suc 0, acquires = Suc 0,
      started = (\<lambda>lang. 0)(ja := Suc 0), returned = (\<lambda>lang. 0)\<rparr>"

definition busyDatabase :: database where
  "busyDatabase =
     \<lparr>databases_query = (\<lambda>q lang cursor. Inr (QueryDatabaseResponse [] False None)),
      SLUG_META_TITLE = ''meta-title'',
      NUMBER_OF_POSTS_PER_PAGE = 3,
      localeCompare = byLength,
      asyncLock = (\<lambda>k. if k = Suc 0 then Rejected TooManyPending else Admitted)\<rparr>"

definition afterFill :: state where
  "afterFill =
     \<lparr>postsCacheByLang = (\<lambda>lang. None)(ja := Some ([], None)), queries = Suc 0,
      acquires = Suc 0, started = (\<lambda>lang. 0)(ja := Suc 0),
      returned = (\<lambda>lang. 0)(ja := Suc 0)\<rparr>"

text \<open>
  A small document. The page \<^verbatim>\<open>root\<close> holds a paragraph with a nested paragraph, a
  toggle whose has-children flag is off, three synced blocks (one that mirrors the
  block \<^verbatim>\<open>o\<close>, one whose source cannot be retrieved, one that is an original) and a
  divider. The remote lists one quote under the source \<^verbatim>\<open>o\<close> and nothing under the
  mirror \<^verbatim>\<open>d\<close>.
\<close>

definition noText :: TextBlockObject where
  "noText = TextBlockObject [] ''default''"

definition rawToggle :: BlockObject where
  "rawToggle = BlockObject ''c'' ''toggle'' False (toggle_field noText)"

definition rawMirror :: BlockObject where
  "rawMirror =
     BlockObject ''d'' ''synced_block'' True
       (synced_block_field (SyncedBlockObject (Some (SyncedFromObject ''o''))))"

definition rawLost :: BlockObject where
  "rawLost =
     BlockObject ''e'' ''synced_block'' True
       (synced_block_field (SyncedBlockObject (Some (SyncedFromObject ''gone''))))"

definition rawOriginal :: BlockObject where
  "rawOriginal = BlockObject ''o'' ''synced_block'' True (synced_block_field (SyncedBlockObject None))"

definition rawRoot :: "BlockObject list" where
  "rawRoot =
     [BlockObject ''a'' ''paragraph'' True (paragraph_field noText),
      rawToggle, rawMirror, rawLost, rawOriginal,
      BlockObject ''g'' ''divider'' False absent]"

definition sampleRemote :: remote where
  "sampleRemote =
     \<lparr>snapshot = (\<lambda>blockId. None),
      children_list = (\<lambda>blockId cursor.
        if blockId = ''root'' then Inr (RetrieveBlockChildrenResponse rawRoot False None)
        else if blockId = ''a'' then
          Inr (RetrieveBlockChildrenResponse
                 [BlockObject ''a1'' ''paragraph'' False (paragraph_field noText)] False None)
        else if blockId = ''o'' then
          Inr (RetrieveBlockChildrenResponse
                 [BlockObject ''o1'' ''quote'' False (quote_field noText)] False None)
        else Inr (RetrieveBlockChildrenResponse [] False None)),
      blocks_retrieve = (\<lambda>blockId.
        if blockId = ''o'' then Inr rawOriginal else Inl (APIResponseError 404)),
      first_rejection = (\<lambda>blockId. 0)\<rparr>"

definition toggleBlock :: Block where
  "toggleBlock = Block ''c'' False ''toggle'' (WithToggle (Toggle [] ''default'' []))"

definition mirrorBlock :: Block where
  "mirrorBlock =
     Block ''d'' True ''synced_block''
       (WithSyncedBlock (SyncedBlock (Some (SyncedFrom.SyncedFrom ''o'')) None))"

definition lostBlock :: Block where
  "lostBlock =
     Block ''e'' True ''synced_block''
       (WithSyncedBlock (SyncedBlock (Some (SyncedFrom.SyncedFrom ''gone'')) None))"

definition originalBlock :: Block where
  "originalBlock = Block ''o'' True ''synced_block'' (WithSyncedBlock (SyncedBlock None None))"

definition quoteBlock :: Block where
  "quoteBlock = Block ''o1'' False ''quote'' (WithQuote (Quote [] ''default'' None))"

text \<open>Two bulleted items, a paragraph and a numbered item.\<close>

definition itemBlock :: "string \<Rightarrow> string \<Rightarrow> Block" where
  "itemBlock blockId kind =
     (if kind = ''bulleted_list_item'' then
        Block blockId False kind (WithBulletedListItem (BulletedListItem [] ''default'' None))
      else if kind = ''numbered_list_item'' then
        Block blockId False kind (WithNumberedListItem (NumberedListItem [] ''default'' None))
      else Block blockId False kind (WithParagraph (Paragraph [] ''default'' None)))"

definition sampleBlocks :: "Block list" where
  "sampleBlocks =
     [itemBlock ''b1'' ''bulleted_list_item'', itemBlock ''b2'' ''bulleted_list_item'',
      itemBlock ''b3'' ''paragraph'', itemBlock ''b4'' ''numbered_list_item'']"

definition sampleGrouped :: "element list" where
  "sampleGrouped =
     [ListElement (ListNode bulleted_list
        [itemBlock ''b1'' ''bulleted_list_item'', itemBlock ''b2'' ''bulleted_list_item'']),
      BlockElement (itemBlock ''b3'' ''paragraph''),
      ListElement (ListNode numbered_list [itemBlock ''b4'' ''numbered_list_item''])]"

section \<open>Shared facts\<close>

lemma sample_selectPosts:
  "selectPosts sampleDatabase samplePages =
     Inr (samplePosts,
          Some (Post ''p5'' ''Site title'' None None ''meta-title'' [] [] [] None 0 True))"
  by (simp add: selectPosts_def samplePages_def samplePage_def samplePosts_def samplePost_def
      validPageObject_def buildPost_def buildPostCover_def buildFeaturedImage_def
      buildPostIcon_def plainText_def span_def sampleDatabase_def)

lemma sample_query:
  "databases_query sampleDatabase q ja c = Inr (QueryDatabaseResponse samplePages False None)"
  by (simp add: sampleDatabase_def)

lemma sample_lock: "asyncLock sampleDatabase k = Admitted"
  by (simp add: sampleDatabase_def)

lemma sample_getAllPosts:
  "\<exists>s1. getAllPosts (Suc 0) sampleDatabase ja initial = Some (Inr samplePosts, s1)"
  by (simp add: getAllPosts_def acquire_def sample_lock getAllPostsCore_def
      fetchPostsAndMeta_def sample_query sample_selectPosts initial_def Let_def)

lemma withAllPosts_returns:
  "getAllPosts n env lang s = Some (Inr allPosts, s1) \<Longrightarrow>
   withAllPosts n env lang f s = Some (Inr (f allPosts), s1)"
  by (simp add: withAllPosts_def)

lemma getAllPosts_admitted:
  assumes "getAllPosts n env lang s = Some (Inr posts, s1)"
  shows "asyncLock env (acquires s) = Admitted
         \<and> getAllPostsCore n env lang (s\<lparr>acquires := Suc (acquires s)\<rparr>) = Some (Inr posts, s1)"
  using assms
  by (auto simp: getAllPosts_def acquire_def Let_def
      split: admission.splits option.splits prod.splits)

lemma signed_getAllPosts:
  "getAllPosts (Suc 0) signedDatabase ja initial
     = Some (Inr signedPosts,
             initial\<lparr>acquires := Suc 0, queries := Suc 0,
                      started := (started initial)(ja := Suc 0),
                      returned := (returned initial)(ja := Suc 0),
                      postsCacheByLang := (postsCacheByLang initial)(ja := Some (signedPosts, None))\<rparr>)"
  by (simp add: getAllPosts_def acquire_def getAllPostsCore_def fetchPostsAndMeta_def
      initial_def Let_def signedDatabase_def selectPosts_def samplePage_def signedPosts_def
      samplePost_def validPageObject_def buildPost_def buildPostCover_def
      buildFeaturedImage_def buildPostIcon_def plainText_def span_def)

section \<open>The block normalizer: unknown kinds\<close>

text \<open>
  C1, as the specification has it: a raw block whose discriminant is not a handled kind
  becomes a block tagged \<^verbatim>\<open>unsupported\<close>. The code does not do that: the \<^verbatim>\<open>default\<close>
  branch copies the raw discriminant into the type tag. A \<^verbatim>\<open>divider\<close>, which the
  \<^verbatim>\<open>switch\<close> has no case for, stays a \<^verbatim>\<open>divider\<close> (and the rendering component has
  a case for that tag).
\<close>

theorem C1_divider_not_unsupported:
  "''divider'' \<notin> set handledKinds
   \<and> buildBlock (BlockObject ''b1'' ''divider'' False absent)
       = Inr (Block ''b1'' False ''divider'' NoPayload)
   \<and> Block.Type (Block ''b1'' False ''divider'' NoPayload) \<noteq> ''unsupported''"
  by (simp add: buildBlock_def handledKinds_def)

text \<open>
  C1, amended: for every raw block whose discriminant is not a handled kind, the
  normalizer returns, without raising, a block that carries the envelope only (the
  identifier and the has-children flag, no payload) and whose type tag is the raw
  discriminant itself.
\<close>

theorem C1_unknown_kind_keeps_envelope_and_tag:
  assumes "BlockObject.type blockObject \<notin> set handledKinds"
  shows "buildBlock blockObject =
           Inr (Block (BlockObject.id blockObject) (has_children blockObject)
                  (BlockObject.type blockObject) NoPayload)"
  using assms by (simp add: buildBlock_def handledKinds_def)

theorem C1_unknown_kind_witness:
  "BlockObject.type (BlockObject ''b7'' ''breadcrumb'' True absent) \<notin> set handledKinds
   \<and> buildBlock (BlockObject ''b7'' ''breadcrumb'' True absent)
       = Inr (Block ''b7'' True ''breadcrumb'' NoPayload)"
proof -
  have h: "BlockObject.type (BlockObject ''b7'' ''breadcrumb'' True absent) \<notin> set handledKinds"
    by (simp add: handledKinds_def)
  show ?thesis
    using h C1_unknown_kind_keeps_envelope_and_tag [OF h] by simp
qed

section \<open>Child assembly\<close>

lemma buildBlock_wellTagged:
  assumes "buildBlock blockObject = Inr block"
  shows "wellTagged block \<and> Block.Id block = BlockObject.id blockObject
         \<and> Block.HasChildren block = has_children blockObject"
proof -
  consider
    (k0) "BlockObject.type blockObject = ''paragraph''"
    | (k1) "BlockObject.type blockObject = ''heading_1''"
    | (k2) "BlockObject.type blockObject = ''heading_2''"
    | (k3) "BlockObject.type blockObject = ''heading_3''"
    | (k4) "BlockObject.type blockObject = ''bulleted_list_item''"
    | (k5) "BlockObject.type blockObject = ''numbered_list_item''"
    | (k6) "BlockObject.type blockObject = ''to_do''"
    | (k7) "BlockObject.type blockObject = ''video''"
    | (k8) "BlockObject.type blockObject = ''image''"
    | (k9) "BlockObject.type blockObject = ''file''"
    | (k10) "BlockObject.type blockObject = ''code''"
    | (k11) "BlockObject.type blockObject = ''quote''"
    | (k12) "BlockObject.type blockObject = ''equation''"
    | (k13) "BlockObject.type blockObject = ''callout''"
    | (k14) "BlockObject.type blockObject = ''synced_block''"
    | (k15) "BlockObject.type blockObject = ''toggle''"
    | (k16) "BlockObject.type blockObject = ''embed''"
    | (k17) "BlockObject.type blockObject = ''bookmark''"
    | (k18) "BlockObject.type blockObject = ''link_preview''"
    | (k19) "BlockObject.type blockObject = ''table''"
    | (k20) "BlockObject.type blockObject = ''column_list''"
    | (k21) "BlockObject.type blockObject = ''table_of_contents''"
    | (k22) "BlockObject.type blockObject = ''link_to_page''"
    | (other) "BlockObject.type blockObject \<notin> set handledKinds"
    by (auto simp: handledKinds_def)
  then show ?thesis
  proof cases
    case k0
    then show ?thesis
      using assms by (cases "payload blockObject") (auto simp: buildBlock_def Let_def handledKinds_def split: if_splits)
    next
    case k1
    then show ?thesis
      using assms by (cases "payload blockObject") (auto simp: buildBlock_def Let_def handledKinds_def split: if_splits)
    next
    case k2
    then show ?thesis
      using assms by (cases "payload blockObject") (auto simp: buildBlock_def Let_def handledKinds_def split: if_splits)
    next
    case k3
    then show ?thesis
      using assms by (cases "payload blockObject") (auto simp: buildBlock_def Let_def handledKinds_def split: if_splits)
    next
    case k4
    then show ?thesis
      using assms by (cases "payload blockObject") (auto simp: buildBlock_def Let_def handledKinds_def split: if_splits)
    next
    case k5
    then show ?thesis
      using assms by (cases "payload blockObject") (auto simp: buildBlock_def Let_def handledKinds_def split: if_splits)
    next
    case k6
    then show ?thesis
      using assms by (cases "payload blockObject") (auto simp: buildBlock_def Let_def handledKinds_def split: if_splits)
    next
    case k7
    then show ?thesis
      using assms by (cases "payload blockObject") (auto simp: buildBlock_def Let_def handledKinds_def split: if_splits)
    next
    case k8
    then show ?thesis
      using assms by (cases "payload blockObject") (auto simp: buildBlock_def Let_def handledKinds_def split: if_splits)
    next
    case k9
    then show ?thesis
      using assms by (cases "payload blockObject") (auto simp: buildBlock_def Let_def handledKinds_def split: if_splits)
    next
    case k10
    then show ?thesis
      using assms by (cases "payload blockObject") (auto simp: buildBlock_def Let_def handledKinds_def split: if_splits)
    next
    case k11
    then show ?thesis
      using assms by (cases "payload blockObject") (auto simp: buildBlock_def Let_def handledKinds_def split: if_splits)
    next
    case k12
    then show ?thesis
      using assms by (cases "payload blockObject") (auto simp: buildBlock_def Let_def handledKinds_def split: if_splits)
    next
    case k13
    then show ?thesis
      using assms by (cases "payload blockObject") (auto simp: buildBlock_def Let_def handledKinds_def split: if_splits)
    next
    case k14
    then show ?thesis
      using assms by (cases "payload blockObject") (auto simp: buildBlock_def Let_def handledKinds_def split: if_splits)
    next
    case k15
    then show ?thesis
      using assms by (cases "payload blockObject") (auto simp: buildBlock_def Let_def handledKinds_def split: if_splits)
    next
    case k16
    then show ?thesis
      using assms by (cases "payload blockObject") (auto simp: buildBlock_def Let_def handledKinds_def split: if_splits)
    next
    case k17
    then show ?thesis
      using assms by (cases "payload blockObject") (auto simp: buildBlock_def Let_def handledKinds_def split: if_splits)
    next
    case k18
    then show ?thesis
      using assms by (cases "payload blockObject") (auto simp: buildBlock_def Let_def handledKinds_def split: if_splits)
    next
    case k19
    then show ?thesis
      using assms by (cases "payload blockObject") (auto simp: buildBlock_def Let_def handledKinds_def split: if_splits)
    next
    case k20
    then show ?thesis
      using assms by (cases "payload blockObject") (auto simp: buildBlock_def Let_def handledKinds_def split: if_splits)
    next
    case k21
    then show ?thesis
      using assms by (cases "payload blockObject") (auto simp: buildBlock_def Let_def handledKinds_def split: if_splits)
    next
    case k22
    then show ?thesis
      using assms by (cases "payload blockObject") (auto simp: buildBlock_def Let_def handledKinds_def split: if_splits)
  next
    case other
    then show ?thesis
      using assms by (auto simp: buildBlock_def Let_def handledKinds_def)
  qed
qed
lemma assembleBlock_wellTagged:
  assumes "wellTagged block"
  shows "assembleBlock getAll n env block = assembleSpec getAll n env block"
proof (cases block)
  case (Block i h t pl)
  show ?thesis
  proof (cases pl)
    case NoPayload
    then show ?thesis
      using assms Block by (auto simp: assembleBlock_def assembleSpec_def Let_def flaggedKinds_def handledKinds_def)
  next
    case (WithParagraph p)
    then show ?thesis
      using assms Block by (cases p) (auto simp: assembleBlock_def assembleSpec_def Let_def flaggedKinds_def handledKinds_def)
  next
    case (WithHeading1 p)
    then show ?thesis
      using assms Block by (cases p) (auto simp: assembleBlock_def assembleSpec_def Let_def flaggedKinds_def handledKinds_def)
  next
    case (WithHeading2 p)
    then show ?thesis
      using assms Block by (cases p) (auto simp: assembleBlock_def assembleSpec_def Let_def flaggedKinds_def handledKinds_def)
  next
    case (WithHeading3 p)
    then show ?thesis
      using assms Block by (cases p) (auto simp: assembleBlock_def assembleSpec_def Let_def flaggedKinds_def handledKinds_def)
  next
    case (WithBulletedListItem p)
    then show ?thesis
      using assms Block by (cases p) (auto simp: assembleBlock_def assembleSpec_def Let_def flaggedKinds_def handledKinds_def)
  next
    case (WithNumberedListItem p)
    then show ?thesis
      using assms Block by (cases p) (auto simp: assembleBlock_def assembleSpec_def Let_def flaggedKinds_def handledKinds_def)
  next
    case (WithToDo p)
    then show ?thesis
      using assms Block by (cases p) (auto simp: assembleBlock_def assembleSpec_def Let_def flaggedKinds_def handledKinds_def)
  next
    case (WithVideo p)
    then show ?thesis
      using assms Block by (auto simp: assembleBlock_def assembleSpec_def Let_def flaggedKinds_def handledKinds_def)
  next
    case (WithImage p)
    then show ?thesis
      using assms Block by (auto simp: assembleBlock_def assembleSpec_def Let_def flaggedKinds_def handledKinds_def)
  next
    case (WithFile p)
    then show ?thesis
      using assms Block by (auto simp: assembleBlock_def assembleSpec_def Let_def flaggedKinds_def handledKinds_def)
  next
    case (WithCode p)
    then show ?thesis
      using assms Block by (auto simp: assembleBlock_def assembleSpec_def Let_def flaggedKinds_def handledKinds_def)
  next
    case (WithQuote p)
    then show ?thesis
      using assms Block by (cases p) (auto simp: assembleBlock_def assembleSpec_def Let_def flaggedKinds_def handledKinds_def)
  next
    case (WithEquation p)
    then show ?thesis
      using assms Block by (auto simp: assembleBlock_def assembleSpec_def Let_def flaggedKinds_def handledKinds_def)
  next
    case (WithCallout p)
    then show ?thesis
      using assms Block by (cases p) (auto simp: assembleBlock_def assembleSpec_def Let_def flaggedKinds_def handledKinds_def)
  next
    case (WithSyncedBlock p)
    then show ?thesis
      using assms Block by (cases p) (auto simp: assembleBlock_def assembleSpec_def Let_def flaggedKinds_def handledKinds_def)
  next
    case (WithToggle p)
    then show ?thesis
      using assms Block by (cases p) (auto simp: assembleBlock_def assembleSpec_def Let_def flaggedKinds_def handledKinds_def)
  next
    case (WithEmbed p)
    then show ?thesis
      using assms Block by (auto simp: assembleBlock_def assembleSpec_def Let_def flaggedKinds_def handledKinds_def)
  next
    case (WithBookmark p)
    then show ?thesis
      using assms Block by (auto simp: assembleBlock_def assembleSpec_def Let_def flaggedKinds_def handledKinds_def)
  next
    case (WithLinkPreview p)
    then show ?thesis
      using assms Block by (auto simp: assembleBlock_def assembleSpec_def Let_def flaggedKinds_def handledKinds_def)
  next
    case (WithTable p)
    then show ?thesis
      using assms Block by (cases p) (auto simp: assembleBlock_def assembleSpec_def Let_def flaggedKinds_def handledKinds_def)
  next
    case (WithColumnList p)
    then show ?thesis
      using assms Block by (cases p) (auto simp: assembleBlock_def assembleSpec_def Let_def flaggedKinds_def handledKinds_def)
  next
    case (WithTableOfContents p)
    then show ?thesis
      using assms Block by (auto simp: assembleBlock_def assembleSpec_def Let_def flaggedKinds_def handledKinds_def)
  next
    case (WithLinkToPage p)
    then show ?thesis
      using assms Block by (auto simp: assembleBlock_def assembleSpec_def Let_def flaggedKinds_def handledKinds_def)
  qed
qed

lemma childSlot_wellTagged:
  assumes "wellTagged block"
  shows "(Block.Type block \<noteq> ''toggle'' \<longrightarrow> childSlot block = None)
         \<and> (Block.Type block \<in> set flaggedKinds \<or> Block.Type block = ''toggle''
              \<or> Block.Type block = ''synced_block''
              \<longrightarrow> childSlot (withChildren children block) = Some children)
         \<and> (Block.Type block = ''table''
              \<longrightarrow> (\<exists>t. Payload (withRows rows block) = WithTable t \<and> Rows t = rows))
         \<and> (Block.Type block = ''column_list''
              \<longrightarrow> Payload (withColumns columns block) = WithColumnList (ColumnList columns))"
proof (cases block)
  case (Block i h t pl)
  show ?thesis
  proof (cases pl)
    case NoPayload
    then show ?thesis
      using assms Block by (auto simp: flaggedKinds_def handledKinds_def)
  next
    case (WithParagraph p)
    then show ?thesis
      using assms Block by (cases p) (auto simp: flaggedKinds_def handledKinds_def)
  next
    case (WithHeading1 p)
    then show ?thesis
      using assms Block by (cases p) (auto simp: flaggedKinds_def handledKinds_def)
  next
    case (WithHeading2 p)
    then show ?thesis
      using assms Block by (cases p) (auto simp: flaggedKinds_def handledKinds_def)
  next
    case (WithHeading3 p)
    then show ?thesis
      using assms Block by (cases p) (auto simp: flaggedKinds_def handledKinds_def)
  next
    case (WithBulletedListItem p)
    then show ?thesis
      using assms Block by (cases p) (auto simp: flaggedKinds_def handledKinds_def)
  next
    case (WithNumberedListItem p)
    then show ?thesis
      using assms Block by (cases p) (auto simp: flaggedKinds_def handledKinds_def)
  next
    case (WithToDo p)
    then show ?thesis
      using assms Block by (cases p) (auto simp: flaggedKinds_def handledKinds_def)
  next
    case (WithVideo p)
    then show ?thesis
      using assms Block by (auto simp: flaggedKinds_def handledKinds_def)
  next
    case (WithImage p)
    then show ?thesis
      using assms Block by (auto simp: flaggedKinds_def handledKinds_def)
  next
    case (WithFile p)
    then show ?thesis
      using assms Block by (auto simp: flaggedKinds_def handledKinds_def)
  next
    case (WithCode p)
    then show ?thesis
      using assms Block by (auto simp: flaggedKinds_def handledKinds_def)
  next
    case (WithQuote p)
    then show ?thesis
      using assms Block by (cases p) (auto simp: flaggedKinds_def handledKinds_def)
  next
    case (WithEquation p)
    then show ?thesis
      using assms Block by (auto simp: flaggedKinds_def handledKinds_def)
  next
    case (WithCallout p)
    then show ?thesis
      using assms Block by (cases p) (auto simp: flaggedKinds_def handledKinds_def)
  next
    case (WithSyncedBlock p)
    then show ?thesis
      using assms Block by (cases p) (auto simp: flaggedKinds_def handledKinds_def)
  next
    case (WithToggle p)
    then show ?thesis
      using assms Block by (cases p) (auto simp: flaggedKinds_def handledKinds_def)
  next
    case (WithEmbed p)
    then show ?thesis
      using assms Block by (auto simp: flaggedKinds_def handledKinds_def)
  next
    case (WithBookmark p)
    then show ?thesis
      using assms Block by (auto simp: flaggedKinds_def handledKinds_def)
  next
    case (WithLinkPreview p)
    then show ?thesis
      using assms Block by (auto simp: flaggedKinds_def handledKinds_def)
  next
    case (WithTable p)
    then show ?thesis
      using assms Block by (cases p) (auto simp: flaggedKinds_def handledKinds_def)
  next
    case (WithColumnList p)
    then show ?thesis
      using assms Block by (cases p) (auto simp: flaggedKinds_def handledKinds_def)
  next
    case (WithTableOfContents p)
    then show ?thesis
      using assms Block by (auto simp: flaggedKinds_def handledKinds_def)
  next
    case (WithLinkToPage p)
    then show ?thesis
      using assms Block by (auto simp: flaggedKinds_def handledKinds_def)
  qed
qed
text \<open>
  C2, as the specification has it: the children of a toggle are fetched only when its
  has-children flag is set. The branch of the toggle does not test the flag. For the
  toggle of the sample document, built with the flag off, the assembly asks for the
  children: it raises when the listing raises, and it fills the slot with what the
  listing returns.
\<close>

theorem C2_toggle_expanded_without_flag:
  "buildBlock rawToggle = Inr toggleBlock
   \<and> \<not> Block.HasChildren toggleBlock
   \<and> assembleBlock (\<lambda>blockId. raise RequestFailed) 0 sampleRemote toggleBlock = raise RequestFailed
   \<and> assembleBlock (\<lambda>blockId. ret [quoteBlock]) 0 sampleRemote toggleBlock
       = ret (Block ''c'' False ''toggle'' (WithToggle (Toggle [] ''default'' [quoteBlock])))"
  by (simp add: buildBlock_def rawToggle_def toggleBlock_def noText_def assembleBlock_def
      bindR_def raise_def ret_def)

text \<open>
  C2, amended: during child assembly over a flat list of normalized blocks, a block
  of the kinds paragraph, heading_1, heading_2, heading_3, bulleted_list_item,
  numbered_list_item, to_do, quote and callout has its children fetched and its child
  slot filled only when its has-children flag is set; table, column_list, synced_block
  and toggle are expanded whatever the flag says; a block of any other kind is left as
  it is, without children. \<open>getAll\<close> is the recursive call; in
  \<open>getAllBlocksByBlockId (Suc n) env\<close> it is \<open>getAllBlocksByBlockId n env\<close>.
\<close>

theorem C2_child_assembly:
  assumes "buildBlock blockObject = Inr block"
  shows "assembleBlock getAll n env block = assembleSpec getAll n env block
         \<and> (Block.Type block \<noteq> ''toggle'' \<longrightarrow> childSlot block = None)
         \<and> (Block.Type block \<in> set flaggedKinds \<or> Block.Type block = ''toggle''
              \<or> Block.Type block = ''synced_block''
              \<longrightarrow> childSlot (withChildren children block) = Some children)
         \<and> (Block.Type block = ''table''
              \<longrightarrow> (\<exists>t. Payload (withRows rows block) = WithTable t \<and> Rows t = rows))
         \<and> (Block.Type block = ''column_list''
              \<longrightarrow> Payload (withColumns columns block) = WithColumnList (ColumnList columns))"
proof -
  have "wellTagged block"
    using buildBlock_wellTagged [OF assms] by simp
  then show ?thesis
    using assembleBlock_wellTagged childSlot_wellTagged by blast
qed

lemma sample_paragraph:
  "buildBlock (BlockObject ''a'' ''paragraph'' True (paragraph_field noText))
     = Inr (Block ''a'' True ''paragraph'' (WithParagraph (Paragraph [] ''default'' None)))"
  by (simp add: buildBlock_def noText_def)

theorem C2_child_assembly_witness:
  "buildBlock (BlockObject ''a'' ''paragraph'' True (paragraph_field noText))
     = Inr (Block ''a'' True ''paragraph'' (WithParagraph (Paragraph [] ''default'' None)))
   \<and> assembleBlock (\<lambda>blockId. ret [quoteBlock]) 0 sampleRemote
        (Block ''a'' True ''paragraph'' (WithParagraph (Paragraph [] ''default'' None)))
       = ret (Block ''a'' True ''paragraph''
                (WithParagraph (Paragraph [] ''default'' (Some [quoteBlock]))))"
  using C2_child_assembly [OF sample_paragraph, of "\<lambda>blockId. ret [quoteBlock]" 0 sampleRemote]
    sample_paragraph
  by (simp add: assembleSpec_def flaggedKinds_def bindR_def ret_def)

section \<open>Filtering of pages\<close>

lemma mapE_Inr_list_all2:
  "mapE f xs = Inr ys \<Longrightarrow> list_all2 (\<lambda>x y. f x = Inr y) xs ys"
  by (induction xs arbitrary: ys) (auto split: sum.splits)

lemma buildPost_Meta:
  "buildPost pageObject = Inr post \<Longrightarrow> Post.Meta post = metaFlag pageObject"
  by (auto simp: buildPost_def metaFlag_def Let_def split: sum.splits option.splits)

lemma filter_list_all2:
  assumes "list_all2 R xs ys" and "\<And>x y. R x y \<Longrightarrow> P x = Q y"
  shows "list_all2 R (filter P xs) (filter Q ys)"
  using assms(1)
proof (induction rule: list_all2_induct)
  case Nil
  show ?case by simp
next
  case (Cons x xs y ys)
  then show ?case using assms(2) [of x y] by auto
qed

lemma selectPosts_retained:
  assumes "selectPosts env pageObjects = Inr (posts, titleMeta)"
  shows "list_all2 (\<lambda>pageObject post. buildPost pageObject = Inr post) (retained pageObjects) posts"
proof -
  obtain allPosts where built: "mapE buildPost (filter validPageObject pageObjects) = Inr allPosts"
    and posts: "posts = filter (\<lambda>p. \<not> Post.Meta p) allPosts"
    using assms by (auto simp: selectPosts_def split: sum.splits)
  have "list_all2 (\<lambda>x y. buildPost x = Inr y) (filter validPageObject pageObjects) allPosts"
    using built by (rule mapE_Inr_list_all2)
  then have "list_all2 (\<lambda>x y. buildPost x = Inr y)
               (filter (\<lambda>p. \<not> metaFlag p) (filter validPageObject pageObjects))
               (filter (\<lambda>p. \<not> Post.Meta p) allPosts)"
    by (rule filter_list_all2) (simp add: buildPost_Meta)
  then show ?thesis
    by (simp add: retained_def posts conj_commute)
qed

lemma getAllPosts_fetched:
  assumes "postsCacheByLang s lang = None"
    and "queryDatabase n env lang None [] (queries s) = Some (Inr pageObjects, q)"
    and "getAllPosts n env lang s = Some (Inr posts, s1)"
  shows "\<exists>titleMeta. selectPosts env pageObjects = Inr (posts, titleMeta)"
  using getAllPosts_admitted [OF assms(3)] assms(1,2)
  by (auto simp: getAllPostsCore_def fetchPostsAndMeta_def Let_def split: sum.splits)

text \<open>
  C3, as the specification has it: a raw page with a title, a slug and the meta flag
  set, but no date, is included in the output of \<^verbatim>\<open>getAllPosts\<close>. It passes
  \<^verbatim>\<open>_validPageObject\<close>, but \<^verbatim>\<open>fetchPostsAndMeta\<close> then takes the posts with the meta
  flag out of the list that \<^verbatim>\<open>getAllPosts\<close> returns: the page \<^verbatim>\<open>p5\<close> of the sample
  database is valid, and no returned post comes from it.
\<close>

theorem C3_meta_page_is_not_returned:
  "samplePages ! 4 = samplePage ''p5'' ''Site title'' ''meta-title'' None [] None True
   \<and> \<not> emptyTitle (samplePages ! 4) \<and> \<not> emptySlug (samplePages ! 4)
   \<and> metaFlag (samplePages ! 4)
   \<and> date (PageProperties.Date (properties (samplePages ! 4))) = None
   \<and> validPageObject (samplePages ! 4)
   \<and> map_option fst (getAllPosts (Suc 0) sampleDatabase ja initial) = Some (Inr samplePosts)
   \<and> map PageId samplePosts = [''p1'', ''p2'', ''p4'', ''p6'']"
proof -
  have "map_option fst (getAllPosts (Suc 0) sampleDatabase ja initial) = Some (Inr samplePosts)"
    using sample_getAllPosts by auto
  then show ?thesis
    by (simp add: samplePages_def samplePage_def emptyTitle_def emptySlug_def metaFlag_def
        validPageObject_def samplePosts_def samplePost_def span_def)
qed

text \<open>
  C3, amended: the posts that \<^verbatim>\<open>getAllPosts\<close> returns when it fetches are built, one
  for one and in order, from the raw pages that pass \<^verbatim>\<open>_validPageObject\<close> and do not
  have the meta flag set. A raw page whose title is empty is not among them. A raw page
  with a non-empty title, a non-empty slug and the meta flag set but no date passes
  the validity filter and is not among them either: it is kept out of the output of
  \<^verbatim>\<open>getAllPosts\<close> (it can only become the title record).
\<close>

theorem C3_getAllPosts_retains_valid_non_meta_pages:
  assumes "postsCacheByLang s lang = None"
    and "queryDatabase n env lang None [] (queries s) = Some (Inr pageObjects, q)"
    and "getAllPosts n env lang s = Some (Inr posts, s1)"
  shows "list_all2 (\<lambda>pageObject post. buildPost pageObject = Inr post) (retained pageObjects) posts
         \<and> (\<forall>p \<in> set pageObjects. emptyTitle p \<longrightarrow> \<not> validPageObject p \<and> p \<notin> set (retained pageObjects))
         \<and> (\<forall>p \<in> set pageObjects.
               \<not> emptyTitle p \<and> \<not> emptySlug p \<and> metaFlag p
               \<and> date (PageProperties.Date (properties p)) = None
               \<longrightarrow> validPageObject p \<and> p \<notin> set (retained pageObjects))"
proof -
  obtain titleMeta where "selectPosts env pageObjects = Inr (posts, titleMeta)"
    using getAllPosts_fetched [OF assms] by blast
  then have built:
    "list_all2 (\<lambda>pageObject post. buildPost pageObject = Inr post) (retained pageObjects) posts"
    by (rule selectPosts_retained)
  have untitled: "\<not> validPageObject p \<and> p \<notin> set (retained pageObjects)" if "emptyTitle p" for p
    using that
    by (auto simp: emptyTitle_def validPageObject_def retained_def Let_def split: option.splits)
  have meta: "validPageObject p \<and> p \<notin> set (retained pageObjects)"
    if "\<not> emptyTitle p \<and> \<not> emptySlug p \<and> metaFlag p
        \<and> date (PageProperties.Date (properties p)) = None" for p
    using that
    by (auto simp: emptyTitle_def emptySlug_def metaFlag_def validPageObject_def retained_def
        Let_def split: option.splits)
  show ?thesis using built untitled meta by blast
qed

lemma sample_queryDatabase:
  "queryDatabase (Suc 0) sampleDatabase ja None [] (queries initial) = Some (Inr samplePages, Suc 0)"
  by (simp add: sample_query initial_def)

theorem C3_getAllPosts_witness:
  "postsCacheByLang initial ja = None
   \<and> queryDatabase (Suc 0) sampleDatabase ja None [] (queries initial) = Some (Inr samplePages, Suc 0)
   \<and> (\<exists>s1. getAllPosts (Suc 0) sampleDatabase ja initial = Some (Inr samplePosts, s1))
   \<and> list_all2 (\<lambda>pageObject post. buildPost pageObject = Inr post) (retained samplePages) samplePosts
   \<and> samplePages ! 2 \<in> set samplePages \<and> emptyTitle (samplePages ! 2)
   \<and> samplePages ! 2 \<notin> set (retained samplePages)
   \<and> samplePages ! 4 \<in> set samplePages \<and> metaFlag (samplePages ! 4)
   \<and> validPageObject (samplePages ! 4) \<and> samplePages ! 4 \<notin> set (retained samplePages)"
proof -
  obtain s1 where run: "getAllPosts (Suc 0) sampleDatabase ja initial = Some (Inr samplePosts, s1)"
    using sample_getAllPosts by blast
  have miss: "postsCacheByLang initial ja = None" by (simp add: initial_def)
  have p2: "samplePages ! 2 \<in> set samplePages \<and> emptyTitle (samplePages ! 2)"
    by (simp add: samplePages_def samplePage_def emptyTitle_def)
  have p4: "samplePages ! 4 \<in> set samplePages \<and> \<not> emptyTitle (samplePages ! 4)
            \<and> \<not> emptySlug (samplePages ! 4) \<and> metaFlag (samplePages ! 4)
            \<and> date (PageProperties.Date (properties (samplePages ! 4))) = None"
    by (simp add: samplePages_def samplePage_def emptyTitle_def emptySlug_def metaFlag_def span_def)
  show ?thesis
    using C3_getAllPosts_retains_valid_non_meta_pages [OF miss sample_queryDatabase run]
      miss sample_queryDatabase run p2 p4
    by blast
qed

section \<open>The list-grouping pass\<close>

lemma listTypeName_inject: "listTypeName k = listTypeName k' \<longleftrightarrow> k = k'"
  by (cases k; cases k') simp_all

lemma listTypeName_listTags: "listTypeName k \<in> set listTags"
  by (cases k) (simp_all add: listTags_def)

lemma reduceStep_other:
  "\<not> isItem x \<Longrightarrow> reduceStep arr x i = Inr (arr @ [x])"
  by (cases x) (auto simp: reduceStep_def itemKind_def split: if_splits)

lemma reduceStep_item:
  "itemKind b = Some k \<Longrightarrow>
   reduceStep arr (BlockElement b) i
     = groupInto k (if i = 0 then None else if arr = [] then None else Some (last arr)) arr b"
  by (auto simp: reduceStep_def itemKind_def split: if_splits)

lemma reduceFrom_append:
  "reduceFrom i arr (xs @ ys)
     = (case reduceFrom i arr xs of Inl e \<Rightarrow> Inl e | Inr arr' \<Rightarrow> reduceFrom (i + length xs) arr' ys)"
  by (induction xs arbitrary: i arr) (auto split: sum.splits)

lemma reduceFrom_run:
  assumes "0 < i" and "\<forall>c \<in> set run. itemKind c = Some k"
  shows "reduceFrom i (arr @ [ListElement (ListNode k items)]) (map BlockElement run)
           = Inr (arr @ [ListElement (ListNode k (items @ run))])"
  using assms
proof (induction run arbitrary: i items)
  case Nil
  then show ?case by simp
next
  case (Cons c run)
  have kind: "itemKind c = Some k" using Cons.prems(2) by simp
  have step: "reduceStep (arr @ [ListElement (ListNode k items)]) (BlockElement c) i
                = Inr (arr @ [ListElement (ListNode k (items @ [c]))])"
    using Cons.prems(1) by (simp add: reduceStep_item [OF kind] groupInto_def)
  have "reduceFrom (Suc i) (arr @ [ListElement (ListNode k (items @ [c]))]) (map BlockElement run)
          = Inr (arr @ [ListElement (ListNode k ((items @ [c]) @ run))])"
    using Cons.prems(2) by (intro Cons.IH) simp_all
  then show ?case using step by simp
qed

lemma reduceFrom_groupRuns:
  assumes "blocksOnly bs" and "i = 0 \<longrightarrow> arr = []"
    and "arr = [] \<or> bs = [] \<or> (\<forall>k. itemKind (hd bs) = Some k \<longrightarrow> typeTag (last arr) \<noteq> listTypeName k)"
  shows "reduceFrom i arr (map BlockElement bs) = Inr (arr @ groupRuns bs)"
  using assms
proof (induction bs arbitrary: i arr rule: groupRuns.induct)
  case 1
  then show ?case by simp
next
  case (2 b bs)
  have tag: "Block.Type b \<notin> set listTags" and rest: "blocksOnly bs"
    using "2.prems"(1) by (simp_all add: blocksOnly_def)
  show ?case
  proof (cases "itemKind b")
    case None
    then have step: "reduceStep arr (BlockElement b) i = Inr (arr @ [BlockElement b])"
      by (simp add: reduceStep_other)
    have "typeTag (last (arr @ [BlockElement b])) \<noteq> listTypeName k" for k
      using tag listTypeName_listTags [of k] by auto
    then have "reduceFrom (Suc i) (arr @ [BlockElement b]) (map BlockElement bs)
                 = Inr ((arr @ [BlockElement b]) @ groupRuns bs)"
      using rest by (intro "2.IH"(1) [OF None]) simp_all
    then show ?thesis using step None by simp
  next
    case (Some k)
    define run where "run = takeWhile (\<lambda>c. itemKind c = Some k) bs"
    define after where "after = dropWhile (\<lambda>c. itemKind c = Some k) bs"
    have split: "bs = run @ after"
      by (simp add: run_def after_def)
    have run: "\<forall>c \<in> set run. itemKind c = Some k"
      unfolding run_def by (auto dest: set_takeWhileD)
    have "arr = [] \<or> typeTag (last arr) \<noteq> listTypeName k"
      using "2.prems"(3) Some by auto
    then have step: "reduceStep arr (BlockElement b) i = Inr (arr @ [ListElement (ListNode k [b])])"
      using "2.prems"(2) by (auto simp: reduceStep_item [OF Some] groupInto_def)
    have absorbed: "reduceFrom (Suc i) (arr @ [ListElement (ListNode k [b])]) (map BlockElement run)
                      = Inr (arr @ [ListElement (ListNode k ([b] @ run))])"
      using run by (intro reduceFrom_run) simp_all
    have "blocksOnly after"
      using rest unfolding blocksOnly_def after_def list_all_iff by (auto dest: set_dropWhileD)
    moreover have "after = [] \<or> (\<forall>k'. itemKind (hd after) = Some k'
                     \<longrightarrow> typeTag (last (arr @ [ListElement (ListNode k (b # run))])) \<noteq> listTypeName k')"
    proof (cases after)
      case Nil
      then show ?thesis by simp
    next
      case (Cons a as)
      then have "itemKind a \<noteq> Some k"
        using hd_dropWhile [of "\<lambda>c. itemKind c = Some k" bs] by (simp add: after_def)
      then show ?thesis using Cons by (auto simp: listTypeName_inject)
    qed
    ultimately have "reduceFrom (Suc i + length run) (arr @ [ListElement (ListNode k (b # run))])
                       (map BlockElement after)
                     = Inr ((arr @ [ListElement (ListNode k (b # run))]) @ groupRuns after)"
      unfolding after_def by (intro "2.IH"(2) [OF Some]) auto
    then have "reduceFrom (Suc i) (arr @ [ListElement (ListNode k [b])]) (map BlockElement bs)
                 = Inr (arr @ ListElement (ListNode k (b # run)) # groupRuns after)"
      using absorbed by (simp add: split reduceFrom_append)
    then show ?thesis
      using step Some by (simp add: run_def after_def)
  qed
qed

lemma groupBlocks_groupRuns:
  "blocksOnly bs \<Longrightarrow> groupBlocks (map BlockElement bs) = Inr (groupRuns bs)"
  using reduceFrom_groupRuns [of bs 0 "[]"] by (simp add: groupBlocks_def)

lemma groupRuns_blocks: "concat (map elementBlocks (groupRuns bs)) = bs"
  by (induction bs rule: groupRuns.induct) (auto split: option.splits)

lemma groupRuns_lists:
  "ListElement l \<in> set (groupRuns bs) \<Longrightarrow>
     ListItems l \<noteq> [] \<and> (\<forall>c \<in> set (ListItems l). itemKind c = Some (ListNode.Type l))"
proof (induction bs rule: groupRuns.induct)
  case 1
  then show ?case by simp
next
  case (2 b bs)
  show ?case
  proof (cases "itemKind b")
    case None
    then have "ListElement l \<in> set (groupRuns bs)" using "2.prems" by simp
    then show ?thesis by (rule "2.IH"(1) [OF None])
  next
    case (Some k)
    define run where "run = takeWhile (\<lambda>c. itemKind c = Some k) bs"
    have run: "\<forall>c \<in> set run. itemKind c = Some k"
      unfolding run_def by (auto dest: set_takeWhileD)
    have "l = ListNode k (b # run)
          \<or> ListElement l \<in> set (groupRuns (dropWhile (\<lambda>c. itemKind c = Some k) bs))"
      using "2.prems" Some by (simp add: run_def)
    then show ?thesis
    proof
      assume "l = ListNode k (b # run)"
      then show ?thesis using run Some by simp
    next
      assume "ListElement l \<in> set (groupRuns (dropWhile (\<lambda>c. itemKind c = Some k) bs))"
      then show ?thesis by (rule "2.IH"(2) [OF Some])
    qed
  qed
qed

lemma groupRuns_blocks_plain:
  "BlockElement c \<in> set (groupRuns bs) \<Longrightarrow> itemKind c = None"
proof (induction bs rule: groupRuns.induct)
  case 1
  then show ?case by simp
next
  case (2 b bs)
  show ?case
  proof (cases "itemKind b")
    case None
    then have "c = b \<or> BlockElement c \<in> set (groupRuns bs)" using "2.prems" by simp
    then show ?thesis using None "2.IH"(1) [OF None] by blast
  next
    case (Some k)
    then have "BlockElement c \<in> set (groupRuns (dropWhile (\<lambda>c. itemKind c = Some k) bs))"
      using "2.prems" by simp
    then show ?thesis by (rule "2.IH"(2) [OF Some])
  qed
qed

lemma groupRuns_head:
  "groupRuns bs \<noteq> [] \<Longrightarrow> bs \<noteq> []
   \<and> (case itemKind (hd bs) of
         None \<Rightarrow> hd (groupRuns bs) = BlockElement (hd bs)
       | Some k \<Rightarrow> (\<exists>items. hd (groupRuns bs) = ListElement (ListNode k items)))"
  by (cases bs) (auto split: option.splits)

lemma groupRuns_maximal:
  "successively (\<lambda>x y. \<not> sameList x y) (groupRuns bs)"
proof (induction bs rule: groupRuns.induct)
  case 1
  show ?case by simp
next
  case (2 b bs)
  show ?case
  proof (cases "itemKind b")
    case None
    then show ?thesis
      using "2.IH"(1) [OF None] by (simp add: successively_Cons sameList_def)
  next
    case (Some k)
    define after where "after = dropWhile (\<lambda>c. itemKind c = Some k) bs"
    have rest: "successively (\<lambda>x y. \<not> sameList x y) (groupRuns after)"
      unfolding after_def by (rule "2.IH"(2) [OF Some])
    have "\<not> sameList (ListElement (ListNode k items)) (hd (groupRuns after))"
      if "groupRuns after \<noteq> []" for items
    proof -
      have ne: "after \<noteq> []" using groupRuns_head [OF that] by simp
      then have "itemKind (hd after) \<noteq> Some k"
        using hd_dropWhile [of "\<lambda>c. itemKind c = Some k" bs] by (simp add: after_def)
      then show ?thesis
        using groupRuns_head [OF that] by (auto simp: sameList_def split: option.splits)
    qed
    then show ?thesis
      using rest Some by (auto simp: successively_Cons after_def)
  qed
qed

text \<open>
  C4: the list-grouping pass, applied to any block sequence, turns each maximal run
  of adjacent list-item blocks of one kind into a single list node of the derived kind
  that holds those items in order, and emits every other block unchanged as an element
  of its own; two bulleted items, a paragraph and a numbered item become a bulleted
  list of two items, the paragraph and a numbered list of one item. A block sequence
  is a sequence of blocks none of which bears the type tag of a list node.

  The output is \<open>groupRuns\<close> of the input. That these are the maximal runs is
  stated with it: the elements hold the blocks of the input in order, a list node
  holds items of its own kind and at least one, a block element is not an item, and
  no two neighbours are list nodes of the same type.
\<close>

theorem C4_grouping_makes_maximal_runs:
  assumes "blocksOnly bs"
  shows "groupBlocks (map BlockElement bs) = Inr (groupRuns bs)
         \<and> concat (map elementBlocks (groupRuns bs)) = bs
         \<and> (\<forall>l. ListElement l \<in> set (groupRuns bs) \<longrightarrow>
               ListItems l \<noteq> []
               \<and> (\<forall>c \<in> set (ListItems l). itemKind c = Some (ListNode.Type l)))
         \<and> (\<forall>c. BlockElement c \<in> set (groupRuns bs) \<longrightarrow> itemKind c = None)
         \<and> successively (\<lambda>x y. \<not> sameList x y) (groupRuns bs)
         \<and> (\<forall>b1 b2 p n1. bs = [b1, b2, p, n1]
               \<and> Block.Type b1 = ''bulleted_list_item'' \<and> Block.Type b2 = ''bulleted_list_item''
               \<and> Block.Type p = ''paragraph'' \<and> Block.Type n1 = ''numbered_list_item''
             \<longrightarrow> groupBlocks (map BlockElement bs)
                   = Inr [ListElement (ListNode bulleted_list [b1, b2]), BlockElement p,
                          ListElement (ListNode numbered_list [n1])])"
proof -
  have runs: "groupBlocks (map BlockElement bs) = Inr (groupRuns bs)"
    using assms by (rule groupBlocks_groupRuns)
  have example: "groupBlocks (map BlockElement bs)
                   = Inr [ListElement (ListNode bulleted_list [b1, b2]), BlockElement p,
                          ListElement (ListNode numbered_list [n1])]"
    if h: "bs = [b1, b2, p, n1] \<and> Block.Type b1 = ''bulleted_list_item''
        \<and> Block.Type b2 = ''bulleted_list_item'' \<and> Block.Type p = ''paragraph''
        \<and> Block.Type n1 = ''numbered_list_item''" for b1 b2 p n1
  proof -
    have "groupRuns bs = [ListElement (ListNode bulleted_list [b1, b2]), BlockElement p,
                          ListElement (ListNode numbered_list [n1])]"
      using h by (simp add: itemKind_def)
    then show ?thesis using runs by simp
  qed
  show ?thesis
    using runs groupRuns_blocks [of bs] groupRuns_lists [of _ bs] groupRuns_blocks_plain [of _ bs]
      groupRuns_maximal [of bs] example
    by blast
qed

lemma sample_blocksOnly: "blocksOnly sampleBlocks"
  by (simp add: blocksOnly_def sampleBlocks_def itemBlock_def listTags_def)

theorem C4_grouping_witness:
  "blocksOnly sampleBlocks
   \<and> map Block.Type sampleBlocks
       = [''bulleted_list_item'', ''bulleted_list_item'', ''paragraph'', ''numbered_list_item'']
   \<and> groupBlocks (map BlockElement sampleBlocks) = Inr sampleGrouped"
proof -
  have "groupBlocks (map BlockElement sampleBlocks) = Inr (groupRuns sampleBlocks)"
    using C4_grouping_makes_maximal_runs [OF sample_blocksOnly] by simp
  moreover have "groupRuns sampleBlocks = sampleGrouped"
    by (simp add: sampleBlocks_def sampleGrouped_def itemBlock_def itemKind_def)
  ultimately show ?thesis
    using sample_blocksOnly by (simp add: sampleBlocks_def itemBlock_def)
qed

lemma reduceFrom_no_items:
  "list_all (\<lambda>x. \<not> isItem x) xs \<Longrightarrow> reduceFrom i arr xs = Inr (arr @ xs)"
  by (induction xs arbitrary: i arr) (simp_all add: reduceStep_other)

lemma reduceStep_output:
  assumes "reduceStep arr x i = Inr arr'" and "list_all (\<lambda>x. \<not> isItem x) arr"
  shows "list_all (\<lambda>x. \<not> isItem x) arr'"
proof (cases "isItem x")
  case False
  then show ?thesis using assms by (auto simp: reduceStep_other)
next
  case True
  then obtain b k where x: "x = BlockElement b" and k: "itemKind b = Some k"
    by (cases x) auto
  have "set (butlast arr) \<subseteq> set arr" by (auto dest: in_set_butlastD)
  then have "list_all (\<lambda>x. \<not> isItem x) (butlast arr)"
    using assms(2) unfolding list_all_iff by blast
  moreover have "\<not> isItem p'" if "pushItem p b = Inr p'" for p p'
    using that by (cases p) auto
  ultimately show ?thesis
    using assms unfolding x reduceStep_item [OF k]
    by (auto simp: groupInto_def split: option.splits if_splits sum.splits)
qed

lemma reduceFrom_output:
  "reduceFrom i arr xs = Inr ys \<Longrightarrow> list_all (\<lambda>x. \<not> isItem x) arr
   \<Longrightarrow> list_all (\<lambda>x. \<not> isItem x) ys"
proof (induction xs arbitrary: i arr)
  case Nil
  then show ?case by simp
next
  case (Cons x xs)
  then obtain arr' where step: "reduceStep arr x i = Inr arr'"
    and rest: "reduceFrom (Suc i) arr' xs = Inr ys"
    by (auto split: sum.splits)
  show ?case
    using Cons.IH [OF rest] reduceStep_output [OF step Cons.prems(2)] by simp
qed

lemma groupBlocks_idempotent:
  assumes "groupBlocks xs = Inr ys"
  shows "groupBlocks ys = Inr ys"
proof -
  have "list_all (\<lambda>x. \<not> isItem x) ys"
    using reduceFrom_output [OF assms [unfolded groupBlocks_def]] by simp
  then show ?thesis
    using reduceFrom_no_items [of ys 0 "[]"] by (simp add: groupBlocks_def)
qed

text \<open>
  C5: the list-grouping pass is idempotent: applied to its own output it returns it
  unchanged, element for element (a list node is never itself a grouping target); on
  a block sequence it has an output; and applied to a sequence that holds no list-item
  block it returns that sequence unchanged.
\<close>

theorem C5_grouping_idempotent:
  "(groupBlocks xs = Inr ys \<longrightarrow> groupBlocks ys = Inr ys)
   \<and> (blocksOnly bs \<longrightarrow>
        (\<exists>out. groupBlocks (map BlockElement bs) = Inr out \<and> groupBlocks out = Inr out))
   \<and> (list_all (\<lambda>b. itemKind b = None) bs
        \<longrightarrow> groupBlocks (map BlockElement bs) = Inr (map BlockElement bs))"
proof -
  have again: "groupBlocks xs = Inr ys \<longrightarrow> groupBlocks ys = Inr ys"
    using groupBlocks_idempotent by blast
  have total: "\<exists>out. groupBlocks (map BlockElement bs) = Inr out \<and> groupBlocks out = Inr out"
    if "blocksOnly bs"
    using groupBlocks_groupRuns [OF that] groupBlocks_idempotent by blast
  have plain: "groupBlocks (map BlockElement bs) = Inr (map BlockElement bs)"
    if "list_all (\<lambda>b. itemKind b = None) bs"
  proof -
    have "list_all (\<lambda>x. \<not> isItem x) (map BlockElement bs)"
      using that by (simp add: list_all_iff)
    then show ?thesis
      using reduceFrom_no_items [of "map BlockElement bs" 0 "[]"] by (simp add: groupBlocks_def)
  qed
  show ?thesis using again total plain by blast
qed

theorem C5_grouping_idempotent_witness:
  "groupBlocks (map BlockElement sampleBlocks) = Inr sampleGrouped
   \<and> groupBlocks sampleGrouped = Inr sampleGrouped
   \<and> blocksOnly sampleBlocks
   \<and> list_all (\<lambda>b. itemKind b = None) [sampleBlocks ! 2]
   \<and> groupBlocks (map BlockElement [sampleBlocks ! 2]) = Inr (map BlockElement [sampleBlocks ! 2])"
proof -
  have first: "groupBlocks (map BlockElement sampleBlocks) = Inr sampleGrouped"
    using groupBlocks_groupRuns [OF sample_blocksOnly]
    by (simp add: sampleBlocks_def sampleGrouped_def itemBlock_def itemKind_def)
  have plain: "list_all (\<lambda>b. itemKind b = None) [sampleBlocks ! 2]"
    by (simp add: sampleBlocks_def itemBlock_def itemKind_def)
  show ?thesis
    using C5_grouping_idempotent [of "map BlockElement sampleBlocks" sampleGrouped "[sampleBlocks ! 2]"]
      first plain sample_blocksOnly
    by simp
qed

section \<open>Synced blocks\<close>

text \<open>
  C6: for every synced block: if it carries a synced-from reference that resolves,
  its children are the children assembled from the identifier of the resolved source
  block, not from its own; if the referenced block cannot be resolved, the result is
  the empty child list and no error is raised; if it carries no synced-from reference,
  the children of its own identifier are assembled. The children so found are what the
  assembly puts into the child slot of the block.
\<close>

theorem C6_synced_block_children:
  assumes "Payload block = WithSyncedBlock sb"
  shows "(\<forall>sf source. SyncedFrom sb = Some sf \<and> BlockId sf \<noteq> []
              \<and> getBlock env (BlockId sf) = Inr source
            \<longrightarrow> getSyncedBlockChildren n env block = getAllBlocksByBlockId n env (Block.Id source))
         \<and> (\<forall>sf e. SyncedFrom sb = Some sf \<and> BlockId sf \<noteq> []
              \<and> getBlock env (BlockId sf) = Inl e
            \<longrightarrow> getSyncedBlockChildren n env block = ret [])
         \<and> (SyncedFrom sb = None
            \<longrightarrow> getSyncedBlockChildren n env block = getAllBlocksByBlockId n env (Block.Id block))
         \<and> (Block.Type block = ''synced_block''
            \<longrightarrow> assembleBlock (getAllBlocksByBlockId n env) n env block
                = bindR (getSyncedBlockChildren n env block) (\<lambda>children.
                    ret (withChildren children block))
              \<and> childSlot (withChildren children block) = Some children)"
proof -
  have resolved: "getSyncedBlockChildren n env block = getAllBlocksByBlockId n env (Block.Id source)"
    if "SyncedFrom sb = Some sf \<and> BlockId sf \<noteq> [] \<and> getBlock env (BlockId sf) = Inr source"
    for sf source
    using that assms by (simp add: getSyncedBlockChildren_def getSyncedBlockChildrenWith_def)
  have failed: "getSyncedBlockChildren n env block = ret []"
    if "SyncedFrom sb = Some sf \<and> BlockId sf \<noteq> [] \<and> getBlock env (BlockId sf) = Inl e"
    for sf e
    using that assms by (simp add: getSyncedBlockChildren_def getSyncedBlockChildrenWith_def)
  have own: "getSyncedBlockChildren n env block = getAllBlocksByBlockId n env (Block.Id block)"
    if "SyncedFrom sb = None"
    using that assms by (simp add: getSyncedBlockChildren_def getSyncedBlockChildrenWith_def)
  have slot: "assembleBlock (getAllBlocksByBlockId n env) n env block
                = bindR (getSyncedBlockChildren n env block) (\<lambda>children.
                    ret (withChildren children block))
              \<and> childSlot (withChildren children block) = Some children"
    if "Block.Type block = ''synced_block''"
    using that assms
    by (cases block; cases sb) (simp add: assembleBlock_def getSyncedBlockChildren_def)
  show ?thesis
    using resolved failed own slot by blast
qed

lemma sample_children_of_source:
  "getAllBlocksByBlockId (Suc (Suc 0)) sampleRemote ''o'' = ret [quoteBlock]"
  by (simp add: fetchChildren_def sampleRemote_def bindR_def ret_def buildBlock_def noText_def
      assembleBlock_def quoteBlock_def)

lemma sample_children_of_mirror:
  "getAllBlocksByBlockId (Suc (Suc 0)) sampleRemote ''d'' = ret []"
  by (simp add: fetchChildren_def sampleRemote_def bindR_def ret_def)

lemma sample_getBlock:
  "getBlock sampleRemote ''o'' = Inr originalBlock
   \<and> getBlock sampleRemote ''gone'' = Inl (APIResponseError 404)"
  by (simp add: getBlock_def sampleRemote_def rawOriginal_def buildBlock_def originalBlock_def)

theorem C6_synced_block_children_witness:
  "Payload mirrorBlock = WithSyncedBlock (SyncedBlock (Some (SyncedFrom.SyncedFrom ''o'')) None)
   \<and> getBlock sampleRemote ''o'' = Inr originalBlock
   \<and> getSyncedBlockChildren (Suc (Suc 0)) sampleRemote mirrorBlock = ret [quoteBlock]
   \<and> getAllBlocksByBlockId (Suc (Suc 0)) sampleRemote (Block.Id mirrorBlock) = ret []
   \<and> Payload lostBlock = WithSyncedBlock (SyncedBlock (Some (SyncedFrom.SyncedFrom ''gone'')) None)
   \<and> getBlock sampleRemote ''gone'' = Inl (APIResponseError 404)
   \<and> getSyncedBlockChildren (Suc (Suc 0)) sampleRemote lostBlock = ret []"
proof -
  have m: "Payload mirrorBlock = WithSyncedBlock (SyncedBlock (Some (SyncedFrom.SyncedFrom ''o'')) None)"
    by (simp add: mirrorBlock_def)
  have l: "Payload lostBlock = WithSyncedBlock (SyncedBlock (Some (SyncedFrom.SyncedFrom ''gone'')) None)"
    by (simp add: lostBlock_def)
  have "getSyncedBlockChildren (Suc (Suc 0)) sampleRemote mirrorBlock
          = getAllBlocksByBlockId (Suc (Suc 0)) sampleRemote (Block.Id originalBlock)"
    using C6_synced_block_children [OF m, of sampleRemote "Suc (Suc 0)"] sample_getBlock by simp
  moreover have "getSyncedBlockChildren (Suc (Suc 0)) sampleRemote lostBlock = ret []"
    using C6_synced_block_children [OF l, of sampleRemote "Suc (Suc 0)"] sample_getBlock by simp
  ultimately show ?thesis
    using m l sample_getBlock sample_children_of_source sample_children_of_mirror
    by (simp add: originalBlock_def mirrorBlock_def)
qed

section \<open>Ranked posts\<close>

lemma insertSorted_rankCompare:
  "insertSorted rankCompare x ys = insort_key (\<lambda>p. - Post.Rank p) x ys"
  by (induction ys) (auto simp: rankCompare_def)

lemma arraySort_rankCompare:
  "arraySort rankCompare xs = sort_key (\<lambda>p. - Post.Rank p) xs"
  by (induction xs) (simp_all add: arraySort_def sort_key_def insertSorted_rankCompare)

lemma sorted_by_rank:
  "sorted_wrt (\<lambda>a b. Post.Rank a \<ge> Post.Rank b) (arraySort rankCompare xs)"
proof -
  have "sorted (map (\<lambda>p. - Post.Rank p) (sort_key (\<lambda>p. - Post.Rank p) xs))"
    by (rule sorted_sort_key)
  then show ?thesis
    by (simp add: arraySort_rankCompare sorted_map)
qed

lemma same_rank_keep_order:
  "filter (\<lambda>p. Post.Rank p = k) (arraySort rankCompare xs) = filter (\<lambda>p. Post.Rank p = k) xs"
proof -
  have "filter (\<lambda>p. - Post.Rank p = - k) (sort_key (\<lambda>p. - Post.Rank p) xs)
          = filter (\<lambda>p. - Post.Rank p = - k) xs"
    by (rule sort_key_stable)
  then show ?thesis by (simp add: arraySort_rankCompare)
qed

text \<open>
  C7, as the specification has it: \<^verbatim>\<open>getRankedPosts\<close> returns the posts whose rank is
  greater than zero. The code keeps a post when \<^verbatim>\<open>!!post.Rank\<close>, which a negative rank
  satisfies: of two posts ranked 3 and -1 both are returned.
\<close>

theorem C7_negative_rank_is_returned:
  "map_option (\<lambda>r. map_sum (\<lambda>e. e) (map Post.Rank) (fst r))
     (getRankedPosts (Suc 0) signedDatabase ja 10 initial) = Some (Inr [3, - 1])
   \<and> \<not> (0 < (- 1 :: int))"
  by (simp add: getRankedPosts_def withAllPosts_def signed_getAllPosts arraySort_def
      rankCompare_def signedPosts_def samplePost_def)

text \<open>
  C7, amended: for every language and page size, \<^verbatim>\<open>getRankedPosts\<close> returns the first
  \<open>pageSize\<close> entries of the list \<open>ranked\<close> that holds exactly the posts of the cached
  list whose rank is not zero, ordered by rank descending, posts of equal rank in their
  order in the cached list. For posts ranked 3, 5, 5, 0 the list is the two posts of
  rank 5, in their original order, and then the post of rank 3.
\<close>

theorem C7_getRankedPosts:
  assumes "getAllPosts n env lang s = Some (Inr allPosts, s1)"
  shows "\<exists>ranked.
           getRankedPosts n env lang pageSize s = Some (Inr (take pageSize ranked), s1)
           \<and> sorted_wrt (\<lambda>a b. Post.Rank a \<ge> Post.Rank b) ranked
           \<and> set ranked = {p \<in> set allPosts. Post.Rank p \<noteq> 0}
           \<and> length ranked = length (filter (\<lambda>p. Post.Rank p \<noteq> 0) allPosts)
           \<and> (\<forall>k. filter (\<lambda>p. Post.Rank p = k) ranked
                    = (if k = 0 then [] else filter (\<lambda>p. Post.Rank p = k) allPosts))
           \<and> (\<forall>a b c d. allPosts = [a, b, c, d] \<and> Post.Rank a = 3 \<and> Post.Rank b = 5
                    \<and> Post.Rank c = 5 \<and> Post.Rank d = 0 \<longrightarrow> ranked = [b, c, a])"
proof -
  define kept where "kept = filter (\<lambda>post. Post.Rank post \<noteq> 0) allPosts"
  define ranked where "ranked = arraySort rankCompare kept"
  have run: "getRankedPosts n env lang pageSize s = Some (Inr (take pageSize ranked), s1)"
    using withAllPosts_returns [OF assms] by (simp add: getRankedPosts_def ranked_def kept_def)
  have ordered: "sorted_wrt (\<lambda>a b. Post.Rank a \<ge> Post.Rank b) ranked"
    unfolding ranked_def by (rule sorted_by_rank)
  have members: "set ranked = {p \<in> set allPosts. Post.Rank p \<noteq> 0}"
    by (auto simp: ranked_def kept_def arraySort_rankCompare)
  have count: "length ranked = length (filter (\<lambda>p. Post.Rank p \<noteq> 0) allPosts)"
    by (simp add: ranked_def kept_def arraySort_rankCompare)
  have stable: "filter (\<lambda>p. Post.Rank p = k) ranked
                  = (if k = 0 then [] else filter (\<lambda>p. Post.Rank p = k) allPosts)" for k
  proof -
    have "filter (\<lambda>p. Post.Rank p = k) ranked = filter (\<lambda>p. Post.Rank p = k) kept"
      unfolding ranked_def by (rule same_rank_keep_order)
    also have "\<dots> = (if k = 0 then [] else filter (\<lambda>p. Post.Rank p = k) allPosts)"
      by (auto simp: kept_def intro: filter_cong)
    finally show ?thesis .
  qed
  have example: "ranked = [b, c, a]"
    if "allPosts = [a, b, c, d] \<and> Post.Rank a = 3 \<and> Post.Rank b = 5
          \<and> Post.Rank c = 5 \<and> Post.Rank d = 0" for a b c d
    using that by (simp add: ranked_def kept_def arraySort_def rankCompare_def)
  show ?thesis
    using run ordered members count stable example by blast
qed

theorem C7_getRankedPosts_witness:
  "\<exists>s1. getAllPosts (Suc 0) sampleDatabase ja initial = Some (Inr samplePosts, s1)
        \<and> map Post.Rank samplePosts = [3, 5, 5, 0]
        \<and> getRankedPosts (Suc 0) sampleDatabase ja 2 initial
            = Some (Inr [samplePosts ! 1, samplePosts ! 2], s1)"
proof -
  obtain s1 where run: "getAllPosts (Suc 0) sampleDatabase ja initial = Some (Inr samplePosts, s1)"
    using sample_getAllPosts by blast
  obtain ranked where
    r: "getRankedPosts (Suc 0) sampleDatabase ja 2 initial = Some (Inr (take 2 ranked), s1)"
    and e: "\<forall>a b c d. samplePosts = [a, b, c, d] \<and> Post.Rank a = 3 \<and> Post.Rank b = 5
              \<and> Post.Rank c = 5 \<and> Post.Rank d = 0 \<longrightarrow> ranked = [b, c, a]"
    using C7_getRankedPosts [OF run, of 2] by blast
  have "ranked = [samplePosts ! 1, samplePosts ! 2, samplePosts ! 0]"
    using e by (simp add: samplePosts_def samplePost_def)
  then show ?thesis
    using run r by (simp add: samplePosts_def samplePost_def)
qed

section \<open>The post cache\<close>

lemma settled_refl: "settled s s"
  by (simp add: settled_def)

lemma settled_trans: "settled s s1 \<Longrightarrow> settled s1 s2 \<Longrightarrow> settled s s2"
  unfolding settled_def by metis

lemma fetchPostsAndMeta_state:
  assumes "fetchPostsAndMeta n env lang s = Some (r, s')"
  shows "postsCacheByLang s' = postsCacheByLang s
         \<and> started s' = (started s)(lang := Suc (started s lang))
         \<and> returned s' = (returned s)(lang :=
              (case r of Inl e \<Rightarrow> returned s lang | Inr x \<Rightarrow> Suc (returned s lang)))"
  using assms
  by (auto simp: fetchPostsAndMeta_def Let_def split: option.splits sum.splits prod.splits)

lemma getAllPostsCore_state:
  assumes "getAllPostsCore n env lang s = Some (r, s')"
  shows "settled s s' \<and> (counted s \<longrightarrow> counted s')
         \<and> (\<forall>posts. r = Inr posts \<longrightarrow> (\<exists>titleMeta. postsCacheByLang s' lang = Some (posts, titleMeta)))"
proof (cases "postsCacheByLang s lang")
  case (Some cache)
  then have "s' = s" and "r = Inr (fst cache)"
    using assms by (auto simp: getAllPostsCore_def)
  then show ?thesis
    using Some by (cases cache) (auto simp: settled_refl)
next
  case None
  then obtain r1 s1 where f: "fetchPostsAndMeta n env lang s = Some (r1, s1)"
    using assms by (auto simp: getAllPostsCore_def split: option.splits)
  note st = fetchPostsAndMeta_state [OF f]
  show ?thesis
  proof (cases r1)
    case (Inl e)
    then have "s' = s1" and "r = Inl e"
      using assms None f by (auto simp: getAllPostsCore_def)
    then show ?thesis
      using st None Inl by (auto simp: settled_def counted_def)
  next
    case (Inr pm)
    then have s': "s' = s1\<lparr>postsCacheByLang := (postsCacheByLang s1)(lang := Some pm)\<rparr>"
      and r: "r = Inr (fst pm)"
      using assms None f by (auto simp: getAllPostsCore_def)
    have "settled s s'"
      using st None by (auto simp: settled_def s')
    moreover have "counted s \<longrightarrow> counted s'"
      using st None Inr by (auto simp: counted_def s')
    moreover have "\<exists>titleMeta. postsCacheByLang s' lang = Some (fst pm, titleMeta)"
      by (cases pm) (simp add: s')
    ultimately show ?thesis using r by auto
  qed
qed

lemma getTitleMetaCore_state:
  assumes "getTitleMetaCore n env lang s = Some (r, s')"
  shows "settled s s' \<and> (counted s \<longrightarrow> counted s')"
proof (cases "postsCacheByLang s lang")
  case (Some cache)
  then have "s' = s"
    using assms by (auto simp: getTitleMetaCore_def)
  then show ?thesis by (simp add: settled_refl)
next
  case None
  then obtain r1 s1 where f: "fetchPostsAndMeta n env lang s = Some (r1, s1)"
    using assms by (auto simp: getTitleMetaCore_def split: option.splits)
  note st = fetchPostsAndMeta_state [OF f]
  show ?thesis
  proof (cases r1)
    case (Inl e)
    then have "s' = s1"
      using assms None f by (auto simp: getTitleMetaCore_def)
    then show ?thesis
      using st None Inl by (auto simp: settled_def counted_def)
  next
    case (Inr pm)
    then have s': "s' = s1\<lparr>postsCacheByLang := (postsCacheByLang s1)(lang := Some pm)\<rparr>"
      using assms None f by (auto simp: getTitleMetaCore_def)
    have "settled s s'"
      using st None by (auto simp: settled_def s')
    moreover have "counted s \<longrightarrow> counted s'"
      using st None Inr by (auto simp: counted_def s')
    ultimately show ?thesis by simp
  qed
qed

lemma getAllPostsOfLanguages_state:
  "getAllPostsOfLanguages n env langs posts s = Some (r, s')
   \<Longrightarrow> settled s s' \<and> (counted s \<longrightarrow> counted s')"
proof (induction langs arbitrary: posts s)
  case Nil
  then show ?case by (simp add: settled_refl)
next
  case (Cons lang langs)
  obtain r1 s1 where c: "getAllPostsCore n env lang s = Some (r1, s1)"
    using Cons.prems by (auto split: option.splits)
  note st = getAllPostsCore_state [OF c]
  show ?case
  proof (cases r1)
    case (Inl e)
    then have "s' = s1" using Cons.prems c by simp
    then show ?thesis using st by simp
  next
    case (Inr ps)
    then have "getAllPostsOfLanguages n env langs (posts @ ps) s1 = Some (r, s')"
      using Cons.prems c by simp
    then have "settled s1 s' \<and> (counted s1 \<longrightarrow> counted s')"
      by (rule Cons.IH)
    then show ?thesis using st settled_trans by blast
  qed
qed

lemma acquire_state:
  assumes "acquire env body s = Some (r, s')"
    and "\<And>s0 r0 s1. body s0 = Some (r0, s1) \<Longrightarrow> settled s0 s1 \<and> (counted s0 \<longrightarrow> counted s1)"
  shows "settled s s' \<and> (counted s \<longrightarrow> counted s')"
proof -
  define s0 where "s0 = s\<lparr>acquires := Suc (acquires s)\<rparr>"
  have base: "settled s s0 \<and> (counted s \<longrightarrow> counted s0)"
    by (simp add: s0_def settled_def counted_def)
  consider (rejected) "s' = s0" | (ran) r0 where "body s0 = Some (r0, s')"
    using assms(1)
    by (auto simp: acquire_def Let_def s0_def split: admission.splits option.splits prod.splits)
  then show ?thesis
  proof cases
    case rejected
    then show ?thesis using base by simp
  next
    case ran
    then have "settled s0 s' \<and> (counted s0 \<longrightarrow> counted s')"
      by (rule assms(2))
    then show ?thesis using base settled_trans by blast
  qed
qed

lemma afterCall_state:
  assumes "afterCall env c s = Some s'"
  shows "settled s s' \<and> (counted s \<longrightarrow> counted s')"
proof (cases c)
  case (Pair n k)
  show ?thesis
  proof (cases k)
    case (GetAllPosts lang)
    then obtain r where "acquire env (getAllPostsCore n env lang) s = Some (r, s')"
      using assms Pair by (auto simp: getAllPosts_def)
    then show ?thesis
    proof (rule acquire_state)
      fix s0 r0 s1
      assume "getAllPostsCore n env lang s0 = Some (r0, s1)"
      then show "settled s0 s1 \<and> (counted s0 \<longrightarrow> counted s1)"
        using getAllPostsCore_state by blast
    qed
  next
    case (GetTitleMeta lang)
    then obtain r where "acquire env (getTitleMetaCore n env lang) s = Some (r, s')"
      using assms Pair by (auto simp: getTitleMeta_def)
    then show ?thesis
    proof (rule acquire_state)
      fix s0 r0 s1
      assume "getTitleMetaCore n env lang s0 = Some (r0, s1)"
      then show "settled s0 s1 \<and> (counted s0 \<longrightarrow> counted s1)"
        using getTitleMetaCore_state by blast
    qed
  next
    case GetAllPostsOfAllLanguages
    then obtain r where "acquire env (getAllPostsOfAllLanguagesCore n env) s = Some (r, s')"
      using assms Pair by (auto simp: getAllPostsOfAllLanguages_def)
    then show ?thesis
    proof (rule acquire_state)
      fix s0 r0 s1
      assume "getAllPostsOfAllLanguagesCore n env s0 = Some (r0, s1)"
      then show "settled s0 s1 \<and> (counted s0 \<longrightarrow> counted s1)"
        using getAllPostsOfLanguages_state by (simp add: getAllPostsOfAllLanguagesCore_def)
    qed
  qed
qed

lemma afterCalls_state:
  "afterCalls env cs s = Some s' \<Longrightarrow> settled s s' \<and> (counted s \<longrightarrow> counted s')"
proof (induction cs arbitrary: s)
  case Nil
  then show ?case by (simp add: settled_refl)
next
  case (Cons c cs)
  obtain s1 where c: "afterCall env c s = Some s1" and rest: "afterCalls env cs s1 = Some s'"
    using Cons.prems by (auto split: option.splits)
  show ?case
    using afterCall_state [OF c] Cons.IH [OF rest] settled_trans by blast
qed

lemma counted_initial: "counted initial"
  by (simp add: counted_def initial_def)

lemma getAllPosts_cached:
  assumes "postsCacheByLang s lang = Some (posts, titleMeta)"
  shows "getAllPosts m env lang s =
           Some ((case asyncLock env (acquires s) of
                    Admitted \<Rightarrow> Inr posts
                  | Rejected e \<Rightarrow> Inl (LockError e)
                  | Overrun \<Rightarrow> Inl (LockError OccupationTimeExceeded)),
                 s\<lparr>acquires := Suc (acquires s)\<rparr>)"
  using assms
  by (simp add: getAllPosts_def acquire_def getAllPostsCore_def Let_def split: admission.splits)

text \<open>
  C8, as the specification has it: once a call of \<^verbatim>\<open>getAllPosts\<close> for a language has
  completed, every later call for that language returns the memoized list, and the
  remote fetch for that language has executed exactly once. Neither holds as it
  stands.

  A fetch that raises leaves no cache entry, so the next call fetches again: with a
  database whose first query fails, the first call of \<^verbatim>\<open>getAllPosts\<close> raises, the
  second completes, and \<^verbatim>\<open>fetchPostsAndMeta\<close> has then been started twice for the
  language.

  And every call goes through \<^verbatim>\<open>asyncLock.acquire\<close>, which can reject it: with a lock
  that finds its queue full at the second call, the first call of \<^verbatim>\<open>getAllPosts\<close>
  returns the (empty) list and fills the cache, and the second raises the error of
  the lock instead of returning that list.
\<close>

theorem C8_fetch_repeated_and_caller_rejected:
  "map_option fst (getAllPosts (Suc 0) flakyDatabase ja initial) = Some (Inl (APIResponseError 502))
   \<and> map_option snd (getAllPosts (Suc 0) flakyDatabase ja initial) = Some afterFailure
   \<and> map_option (\<lambda>r. (fst r, started (snd r) ja)) (getAllPosts (Suc 0) flakyDatabase ja afterFailure)
       = Some (Inr [], 2)
   \<and> getAllPosts (Suc 0) busyDatabase ja initial = Some (Inr [], afterFill)
   \<and> map_option fst (getAllPosts (Suc 0) busyDatabase ja afterFill)
       = Some (Inl (LockError TooManyPending))"
  by (simp add: getAllPosts_def acquire_def getAllPostsCore_def fetchPostsAndMeta_def Let_def
      flakyDatabase_def busyDatabase_def initial_def afterFailure_def afterFill_def
      selectPosts_def)

text \<open>
  C8, amended: in a process that starts with an empty cache, once a call of
  \<^verbatim>\<open>getAllPosts\<close> for a language has returned a list, every later call of
  \<^verbatim>\<open>getAllPosts\<close> for that language, whatever calls came in between and whatever
  fuel it has, does one of two things: when the lock admits it, it returns that
  same list; when the lock rejects it (the queue is full, the call times out in the
  queue, or the occupation time is exceeded), it raises the error of the lock. In
  neither case does it fetch or touch the cache: the state after it differs from the
  state before it in the count of the calls of \<^verbatim>\<open>acquire\<close> only. No fetch for that
  language is started after the first call that returned, and exactly one fetch for
  that language has returned. (Fetches for the language that raised before that call
  are not counted out: they left the cache empty.)
\<close>

theorem C8_getAllPosts_memoized:
  assumes "afterCalls env before initial = Some s"
    and "getAllPosts n env lang s = Some (Inr posts, s1)"
    and "afterCalls env later s1 = Some s2"
  shows "getAllPosts m env lang s2 =
           Some ((case asyncLock env (acquires s2) of
                    Admitted \<Rightarrow> Inr posts
                  | Rejected e \<Rightarrow> Inl (LockError e)
                  | Overrun \<Rightarrow> Inl (LockError OccupationTimeExceeded)),
                 s2\<lparr>acquires := Suc (acquires s2)\<rparr>)
         \<and> (asyncLock env (acquires s2) = Admitted
              \<longrightarrow> getAllPosts m env lang s2 = Some (Inr posts, s2\<lparr>acquires := Suc (acquires s2)\<rparr>))
         \<and> (\<exists>titleMeta. postsCacheByLang s2 lang = Some (posts, titleMeta))
         \<and> started s2 lang = started s1 lang
         \<and> returned s2 lang = 1 \<and> returned s1 lang = 1"
proof -
  have "counted s"
    using afterCalls_state [OF assms(1)] counted_initial by blast
  then have c0: "counted (s\<lparr>acquires := Suc (acquires s)\<rparr>)"
    by (simp add: counted_def)
  note first = getAllPostsCore_state [OF conjunct2 [OF getAllPosts_admitted [OF assms(2)]]]
  have c1: "counted s1" using first c0 by blast
  obtain titleMeta where entry: "postsCacheByLang s1 lang = Some (posts, titleMeta)"
    using first by blast
  note rest = afterCalls_state [OF assms(3)]
  have kept: "postsCacheByLang s2 lang = Some (posts, titleMeta)"
    and same: "started s2 lang = started s1 lang" "returned s2 lang = returned s1 lang"
    using rest entry by (auto simp: settled_def)
  have one: "returned s1 lang = 1"
    using c1 entry by (simp add: counted_def)
  note hit = getAllPosts_cached [OF kept, of m env]
  have admitted: "getAllPosts m env lang s2 = Some (Inr posts, s2\<lparr>acquires := Suc (acquires s2)\<rparr>)"
    if "asyncLock env (acquires s2) = Admitted"
    using hit that by simp
  show ?thesis using hit admitted kept same one by simp
qed

lemma sample_later_calls:
  assumes "getAllPosts (Suc 0) sampleDatabase ja initial = Some (Inr samplePosts, s1)"
  shows "\<exists>s2. afterCalls sampleDatabase [(Suc 0, GetAllPosts en), (0, GetTitleMeta ja)] s1 = Some s2"
proof -
  have cached: "postsCacheByLang s1 ja \<noteq> None" and other: "postsCacheByLang s1 en = None"
    using getAllPosts_admitted [OF assms]
    by (auto simp: getAllPostsCore_def fetchPostsAndMeta_def Let_def initial_def
        sample_query split: sum.splits)
  have en: "databases_query sampleDatabase q en c = Inr (QueryDatabaseResponse [] False None)" for q c
    by (simp add: sampleDatabase_def)
  show ?thesis
    using cached other
    by (auto simp: getAllPosts_def getTitleMeta_def acquire_def sample_lock getAllPostsCore_def
        getTitleMetaCore_def fetchPostsAndMeta_def Let_def en selectPosts_def)
qed

lemma busy_getAllPosts:
  "getAllPosts (Suc 0) busyDatabase ja initial = Some (Inr [], afterFill)"
  by (simp add: getAllPosts_def acquire_def getAllPostsCore_def fetchPostsAndMeta_def Let_def
      busyDatabase_def initial_def afterFill_def selectPosts_def)

theorem C8_getAllPosts_memoized_witness:
  "afterCalls sampleDatabase [] initial = Some initial
   \<and> (\<exists>s1 s2. getAllPosts (Suc 0) sampleDatabase ja initial = Some (Inr samplePosts, s1)
        \<and> afterCalls sampleDatabase [(Suc 0, GetAllPosts en), (0, GetTitleMeta ja)] s1 = Some s2
        \<and> getAllPosts 0 sampleDatabase ja s2
            = Some (Inr samplePosts, s2\<lparr>acquires := Suc (acquires s2)\<rparr>)
        \<and> returned s2 ja = 1)
   \<and> afterCalls busyDatabase [] initial = Some initial
   \<and> getAllPosts (Suc 0) busyDatabase ja initial = Some (Inr [], afterFill)
   \<and> afterCalls busyDatabase [] afterFill = Some afterFill
   \<and> getAllPosts 0 busyDatabase ja afterFill
       = Some (Inl (LockError TooManyPending), afterFill\<lparr>acquires := Suc (acquires afterFill)\<rparr>)"
proof -
  obtain s1 where run: "getAllPosts (Suc 0) sampleDatabase ja initial = Some (Inr samplePosts, s1)"
    using sample_getAllPosts by blast
  have before: "afterCalls sampleDatabase [] initial = Some initial" by simp
  obtain s2 where later:
    "afterCalls sampleDatabase [(Suc 0, GetAllPosts en), (0, GetTitleMeta ja)] s1 = Some s2"
    using sample_later_calls [OF run] by blast
  have open_lock: "getAllPosts 0 sampleDatabase ja s2
                     = Some (Inr samplePosts, s2\<lparr>acquires := Suc (acquires s2)\<rparr>)"
    and once: "returned s2 ja = 1"
    using C8_getAllPosts_memoized [OF before run later, of 0] by (simp_all add: sample_lock)
  have b0: "afterCalls busyDatabase [] initial = Some initial"
    and b1: "afterCalls busyDatabase [] afterFill = Some afterFill"
    by simp_all
  have "asyncLock busyDatabase (acquires afterFill) = Rejected TooManyPending"
    by (simp add: busyDatabase_def afterFill_def)
  then have full: "getAllPosts 0 busyDatabase ja afterFill
                     = Some (Inl (LockError TooManyPending),
                             afterFill\<lparr>acquires := Suc (acquires afterFill)\<rparr>)"
    using C8_getAllPosts_memoized [OF b0 busy_getAllPosts b1, of 0] by simp
  show ?thesis
    using before run later open_lock once b0 b1 busy_getAllPosts full by blast
qed

section \<open>Pagination\<close>

text \<open>
  C9: \<^verbatim>\<open>getNumberOfPages\<close> returns the ceiling of the number of retained posts of the
  language divided by the page size, computed as the floor of the quotient plus one
  when the remainder is not zero: 3 for 25 posts at page size 10, 2 for exactly 20.
  The page size is positive; the posts are those that \<^verbatim>\<open>getAllPosts\<close> returns.
\<close>

theorem C9_getNumberOfPages_is_ceiling:
  assumes "getAllPosts n env lang s = Some (Inr allPosts, s1)"
    and "0 < NUMBER_OF_POSTS_PER_PAGE env"
  shows "getNumberOfPages n env lang s =
           Some (Inr (Finite (nat \<lceil>real (length allPosts) / real (NUMBER_OF_POSTS_PER_PAGE env)\<rceil>)), s1)
         \<and> nat \<lceil>real (length allPosts) / real (NUMBER_OF_POSTS_PER_PAGE env)\<rceil>
             = length allPosts div NUMBER_OF_POSTS_PER_PAGE env
               + (if length allPosts mod NUMBER_OF_POSTS_PER_PAGE env > 0 then 1 else 0)
         \<and> (length allPosts = 25 \<and> NUMBER_OF_POSTS_PER_PAGE env = 10
              \<longrightarrow> getNumberOfPages n env lang s = Some (Inr (Finite 3), s1))
         \<and> (length allPosts = 20 \<and> NUMBER_OF_POSTS_PER_PAGE env = 10
              \<longrightarrow> getNumberOfPages n env lang s = Some (Inr (Finite 2), s1))"
proof -
  define len where "len = length allPosts"
  define size where "size = NUMBER_OF_POSTS_PER_PAGE env"
  have pos: "0 < size" using assms(2) by (simp add: size_def)
  have run: "getNumberOfPages n env lang s = Some (Inr (numberOfPages len size), s1)"
    using withAllPosts_returns [OF assms(1)] by (simp add: getNumberOfPages_def len_def size_def)
  have formula: "numberOfPages len size = Finite (len div size + (if len mod size > 0 then 1 else 0))"
    using pos by (simp add: numberOfPages_def)
  have "real len = real size * real (len div size) + real (len mod size)"
    by (metis mult_div_mod_eq of_nat_add of_nat_mult)
  then have split: "real len / real size = real (len div size) + real (len mod size) / real size"
    using pos by (simp add: field_simps)
  have ceil: "nat \<lceil>real len / real size\<rceil> = len div size + (if len mod size > 0 then 1 else 0)"
  proof (cases "len mod size = 0")
    case True
    then show ?thesis using split by simp
  next
    case False
    have "0 < real (len mod size) / real size" using False pos by simp
    moreover have "real (len mod size) / real size < 1" using pos by simp
    ultimately have "\<lceil>real len / real size\<rceil> = int (len div size) + 1"
      using split by (intro ceiling_unique) auto
    then show ?thesis using False by simp
  qed
  show ?thesis
    using run formula ceil unfolding len_def [symmetric] size_def [symmetric]
    by (auto simp: numberOfPages_def)
qed

theorem C9_getNumberOfPages_witness:
  "0 < NUMBER_OF_POSTS_PER_PAGE sampleDatabase
   \<and> (\<exists>s1. getAllPosts (Suc 0) sampleDatabase ja initial = Some (Inr samplePosts, s1)
          \<and> getNumberOfPages (Suc 0) sampleDatabase ja initial = Some (Inr (Finite 2), s1))"
proof -
  obtain s1 where run: "getAllPosts (Suc 0) sampleDatabase ja initial = Some (Inr samplePosts, s1)"
    using sample_getAllPosts by blast
  have pos: "0 < NUMBER_OF_POSTS_PER_PAGE sampleDatabase"
    by (simp add: sampleDatabase_def)
  have "nat \<lceil>real (length samplePosts) / real (NUMBER_OF_POSTS_PER_PAGE sampleDatabase)\<rceil> = 2"
    using C9_getNumberOfPages_is_ceiling [OF run pos]
    by (simp add: samplePosts_def sampleDatabase_def)
  then show ?thesis
    using C9_getNumberOfPages_is_ceiling [OF run pos] run pos by auto
qed

section \<open>Tags\<close>

lemma set_insertSorted: "set (insertSorted cmp x ys) = insert x (set ys)"
  by (induction ys) auto

lemma set_arraySort: "set (arraySort cmp xs) = set xs"
  unfolding arraySort_def by (induction xs) (simp_all add: set_insertSorted)

lemma distinct_map_insertSorted:
  "distinct (map f (insertSorted cmp x ys)) = (f x \<notin> f ` set ys \<and> distinct (map f ys))"
  by (induction ys) (auto simp: set_insertSorted)

lemma distinct_map_arraySort:
  "distinct (map f (arraySort cmp xs)) = distinct (map f xs)"
  unfolding arraySort_def
  by (induction xs) (simp_all add: distinct_map_insertSorted set_arraySort [unfolded arraySort_def])

lemma sorted_insertSorted:
  assumes "consistent cmp" and "sorted_wrt (\<lambda>a b. cmp a b \<le> 0) ys"
  shows "sorted_wrt (\<lambda>a b. cmp a b \<le> 0) (insertSorted cmp x ys)"
  using assms(2)
proof (induction ys)
  case Nil
  then show ?case by simp
next
  case (Cons y ys)
  have tail: "sorted_wrt (\<lambda>a b. cmp a b \<le> 0) ys" and head: "\<forall>z \<in> set ys. cmp y z \<le> 0"
    using Cons.prems by simp_all
  show ?case
  proof (cases "cmp x y \<le> 0")
    case True
    have "cmp x z \<le> 0" if "z \<in> set ys" for z
    proof -
      have "cmp y z \<le> 0" using head that by blast
      with True show ?thesis
        using assms(1) unfolding consistent_def by blast
    qed
    then show ?thesis using True Cons.prems by simp
  next
    case False
    have "cmp x y \<le> 0 \<or> cmp y x \<le> 0"
      using assms(1) unfolding consistent_def by blast
    then have "cmp y x \<le> 0" using False by blast
    then show ?thesis
      using False head Cons.IH [OF tail] by (simp add: set_insertSorted)
  qed
qed

lemma sorted_arraySort:
  assumes "consistent cmp"
  shows "sorted_wrt (\<lambda>a b. cmp a b \<le> 0) (arraySort cmp xs)"
proof (induction xs)
  case Nil
  show ?case by (simp add: arraySort_def)
next
  case (Cons x xs)
  have "arraySort cmp (x # xs) = insertSorted cmp x (arraySort cmp xs)"
    by (simp add: arraySort_def)
  then show ?case
    using sorted_insertSorted [OF assms Cons.IH] by simp
qed

lemma keepNewTag_foldl:
  assumes "tagNames = map name acc" and "distinct (map name acc)"
  shows "snd (foldl keepNewTag (acc, tagNames) ts) = map name (fst (foldl keepNewTag (acc, tagNames) ts))
         \<and> distinct (map name (fst (foldl keepNewTag (acc, tagNames) ts)))
         \<and> name ` set (fst (foldl keepNewTag (acc, tagNames) ts)) = name ` set acc \<union> name ` set ts
         \<and> (\<forall>t \<in> set (fst (foldl keepNewTag (acc, tagNames) ts)).
               t \<in> set acc
               \<or> (name t \<notin> name ` set acc \<and> find (\<lambda>u. name u = name t) ts = Some t))"
  using assms
proof (induction ts arbitrary: acc tagNames)
  case Nil
  then show ?case by simp
next
  case (Cons t ts)
  show ?case
  proof (cases "name t \<in> set tagNames")
    case True
    then have step: "keepNewTag (acc, tagNames) t = (acc, tagNames)"
      by (simp add: keepNewTag_def)
    have seen: "name t \<in> name ` set acc" using True Cons.prems(1) by simp
    show ?thesis
      using Cons.IH [OF Cons.prems] seen unfolding foldl_Cons step by auto
  next
    case False
    then have step: "keepNewTag (acc, tagNames) t = (acc @ [t], tagNames @ [name t])"
      by (simp add: keepNewTag_def)
    have fresh: "name t \<notin> name ` set acc" using False Cons.prems(1) by simp
    have p1: "tagNames @ [name t] = map name (acc @ [t])" using Cons.prems(1) by simp
    have p2: "distinct (map name (acc @ [t]))" using Cons.prems(2) fresh by simp
    show ?thesis
      using Cons.IH [OF p1 p2] fresh unfolding foldl_Cons step by auto
  qed
qed

text \<open>
  C10: for every language, \<^verbatim>\<open>getAllTags\<close> returns the tags of the retained posts with
  duplicate names removed, the first occurrence in post order kept, sorted ascending
  by name; no two entries have the same name. The order is that of \<^verbatim>\<open>localeCompare\<close>,
  taken to be a consistent comparison.
\<close>

theorem C10_getAllTags:
  assumes "getAllPosts n env lang s = Some (Inr allPosts, s1)"
    and "consistent (localeCompare env)"
  shows "\<exists>tags.
           getAllTags n env lang s = Some (Inr tags, s1)
           \<and> sorted_wrt (\<lambda>a b. localeCompare env (name a) (name b) \<le> 0) tags
           \<and> distinct (map name tags)
           \<and> name ` set tags = name ` set (concat (map Post.Tags allPosts))
           \<and> (\<forall>t \<in> set tags.
                 find (\<lambda>u. name u = name t) (concat (map Post.Tags allPosts)) = Some t)"
proof -
  define every where "every = concat (map Post.Tags allPosts)"
  define firsts where "firsts = fst (foldl keepNewTag ([], []) every)"
  define cmp where "cmp = (\<lambda>a b. localeCompare env (name a) (name b))"
  have run: "getAllTags n env lang s = Some (Inr (arraySort cmp firsts), s1)"
    using withAllPosts_returns [OF assms(1), of "allTags env"]
    by (simp add: getAllTags_def allTags_def firsts_def every_def cmp_def)
  have "consistent cmp"
    using assms(2) unfolding consistent_def cmp_def by blast
  then have ordered: "sorted_wrt (\<lambda>a b. cmp a b \<le> 0) (arraySort cmp firsts)"
    by (rule sorted_arraySort)
  have fold: "distinct (map name firsts)
              \<and> name ` set firsts = name ` set every
              \<and> (\<forall>t \<in> set firsts. find (\<lambda>u. name u = name t) every = Some t)"
    using keepNewTag_foldl [of "[]" "[]" every] by (simp add: firsts_def)
  have "distinct (map name (arraySort cmp firsts))"
    using fold by (simp add: distinct_map_arraySort)
  moreover have "name ` set (arraySort cmp firsts) = name ` set every"
    using fold by (simp add: set_arraySort)
  moreover have "\<forall>t \<in> set (arraySort cmp firsts). find (\<lambda>u. name u = name t) every = Some t"
    using fold by (simp add: set_arraySort)
  ultimately show ?thesis
    using run ordered unfolding cmp_def every_def by blast
qed

lemma consistent_byLength: "consistent byLength"
  by (auto simp: consistent_def byLength_def)

theorem C10_getAllTags_witness:
  "consistent (localeCompare sampleDatabase)
   \<and> (\<exists>s1. getAllPosts (Suc 0) sampleDatabase ja initial = Some (Inr samplePosts, s1)
          \<and> getAllTags (Suc 0) sampleDatabase ja initial = Some (Inr [tagArt, tagNews], s1))"
proof -
  obtain s1 where run: "getAllPosts (Suc 0) sampleDatabase ja initial = Some (Inr samplePosts, s1)"
    using sample_getAllPosts by blast
  have c: "consistent (localeCompare sampleDatabase)"
    by (simp add: sampleDatabase_def consistent_byLength)
  obtain tags where t: "getAllTags (Suc 0) sampleDatabase ja initial = Some (Inr tags, s1)"
    using C10_getAllTags [OF run c] by blast
  have "getAllTags (Suc 0) sampleDatabase ja initial = Some (Inr [tagArt, tagNews], s1)"
    using withAllPosts_returns [OF run, of "allTags sampleDatabase"]
    by (simp add: getAllTags_def allTags_def samplePosts_def samplePost_def keepNewTag_def
        arraySort_def sampleDatabase_def byLength_def tagArt_def tagNews_def tagNewsAgain_def)
  then show ?thesis using run c t by auto
qed

end
